theory Spec2Isabelle
  imports Complex_Main
begin

section \<open>Python values\<close>

text \<open>
  A Python \<^verbatim>\<open>str\<close> is a sequence of Unicode code points, and \<^verbatim>\<open>len\<close> counts code
  points: the model uses lists of code-point numbers, not bytes. \<open>py\<close> writes an ASCII
  literal.
\<close>

type_synonym pystr = "nat list"

definition py :: "string \<Rightarrow> pystr" where
  "py s = map of_char s"

text \<open>
  The characters \<^verbatim>\<open>str.strip()\<close> and \<^verbatim>\<open>str.split()\<close> remove: the code points for which
  \<^verbatim>\<open>str.isspace\<close> holds (U+0009..U+000D, U+001C..U+0020, U+0085, U+00A0, U+1680,
  U+2000..U+200A, U+2028, U+2029, U+202F, U+205F, U+3000).
\<close>

definition isspace :: "nat \<Rightarrow> bool" where
  "isspace c \<longleftrightarrow>
     (9 \<le> c \<and> c \<le> 13) \<or> (28 \<le> c \<and> c \<le> 32) \<or> c = 133 \<or> c = 160 \<or> c = 5760 \<or>
     (8192 \<le> c \<and> c \<le> 8202) \<or> c = 8232 \<or> c = 8233 \<or> c = 8239 \<or> c = 8287 \<or> c = 12288"

definition strip :: "pystr \<Rightarrow> pystr" where
  "strip s = rev (dropWhile isspace (rev (dropWhile isspace s)))"

text \<open>
  \<open>split_where p s\<close> cuts \<open>s\<close> at every character satisfying \<open>p\<close> and keeps the empty
  pieces, as \<^verbatim>\<open>s.split(sep)\<close> does for a one-character separator; \<^verbatim>\<open>s.split()\<close> cuts
  at white space and drops the empty pieces.
\<close>

fun split_where :: "(nat \<Rightarrow> bool) \<Rightarrow> pystr \<Rightarrow> pystr list" where
  "split_where p [] = [[]]"
| "split_where p (c # cs) =
     (if p c then [] # split_where p cs
      else (case split_where p cs of
              [] \<Rightarrow> [[c]]
            | piece # pieces \<Rightarrow> (c # piece) # pieces))"

definition split_on :: "nat \<Rightarrow> pystr \<Rightarrow> pystr list" where
  "split_on sep s = split_where (\<lambda>c. c = sep) s"

text \<open>
  \<^verbatim>\<open>sep.join(pieces)\<close> for a one-character separator, the inverse of
  \<^verbatim>\<open>s.split(sep)\<close>.
\<close>

fun join :: "nat \<Rightarrow> pystr list \<Rightarrow> pystr" where
  "join sep [] = []"
| "join sep [piece] = piece"
| "join sep (piece # pieces) = piece @ sep # join sep pieces"

definition split_ws :: "pystr \<Rightarrow> pystr list" where
  "split_ws s = filter (\<lambda>piece. piece \<noteq> []) (split_where isspace s)"

definition isascii :: "pystr \<Rightarrow> bool" where
  "isascii s = list_all (\<lambda>c. c < 128) s"

text \<open>\<^verbatim>\<open>name in msg_text\<close>: \<open>name\<close> occurs in \<open>msg_text\<close> as a contiguous piece.\<close>

fun py_in :: "pystr \<Rightarrow> pystr \<Rightarrow> bool" where
  "py_in name [] = (name = [])"
| "py_in name (c # cs) = (take (length name) (c # cs) = name \<or> py_in name cs)"

text \<open>\<^verbatim>\<open>str(i)\<close> for an integer: its decimal digits, with a minus sign when negative.\<close>

fun str_nat :: "nat \<Rightarrow> pystr" where
  "str_nat n = (if n < 10 then [48 + n] else str_nat (n div 10) @ [48 + n mod 10])"

declare str_nat.simps [simp del]

definition py_str :: "int \<Rightarrow> pystr" where
  "py_str i = (if i < 0 then 45 # str_nat (nat (- i)) else str_nat (nat i))"

text \<open>The exceptions the modelled code raises.\<close>

datatype error = ValueError | KeyError | IndexError

section \<open>Inbound events\<close>

text \<open>
  A \<^verbatim>\<open>MessageEvent\<close> of the chat framework, with what the code reads of it. A segment's
  \<^verbatim>\<open>data\<close> is a dictionary: a key may be absent, and \<^verbatim>\<open>data["k"]\<close> then raises
  \<^verbatim>\<open>KeyError\<close>, while \<^verbatim>\<open>data.get("k", d)\<close> gives \<open>d\<close>.
\<close>

datatype seg_type = SegText | SegImage | SegMface | SegOther

record segment =
  seg_type :: seg_type
  seg_text :: "pystr option"
  seg_url :: "pystr option"
  seg_summary :: "pystr option"

datatype event_kind = PrivateMessageEvent | GroupMessageEvent int | OtherMessageEvent

record event =
  kind :: event_kind
  ev_user_id :: int
  ev_self_id :: int
  ev_time :: int
  sender_nickname :: "pystr option"
  raw_message :: pystr
  plaintext :: pystr
  is_tome :: bool
  segments :: "segment list"

text \<open>
  \<^verbatim>\<open>event.group_id if isinstance(event, GroupMessageEvent) else event.user_id\<close>, the
  conversation an event belongs to.
\<close>

definition event_session_id :: "event \<Rightarrow> int" where
  "event_session_id ev = (case kind ev of GroupMessageEvent gid \<Rightarrow> gid | _ \<Rightarrow> ev_user_id ev)"

section \<open>The conversation store (session\_manager.py)\<close>

datatype content = Text pystr | Image_url pystr pystr

text \<open>
  \<^verbatim>\<open>user_id\<close> is documented as an integer, but \<^verbatim>\<open>from_dict\<close> stores whatever the
  dictionary holds, and the bot's own message is built with \<^verbatim>\<open>str(event.self_id)\<close>. Python's
  \<^verbatim>\<open>==\<close> never equates an \<^verbatim>\<open>int\<close> with a \<^verbatim>\<open>str\<close>: the two are different
  constructors here.
\<close>

datatype py_id = IntId int | StrId pystr

record simple_message =
  user_name :: pystr
  user_id :: py_id
  time :: int
  message :: "content list"

datatype session_type = Private | Group

record session =
  session_id :: int
  session_type :: session_type
  self_id :: int
  max_histories :: int
  messages :: "simple_message list"

text \<open>
  \<^verbatim>\<open>SimpleMessage._from_message\<close>: the loop over the segments, with the list built so far
  and the type of the previous segment. A text segment that repeats the \<^verbatim>\<open>detail\<close> of
  the mface image just before it is skipped.
\<close>

definition image_content :: "segment \<Rightarrow> error + content" where
  "image_content seg =
     (case seg_url seg of
        None \<Rightarrow> Inl KeyError
      | Some url \<Rightarrow>
          Inr (Image_url url (case seg_summary seg of None \<Rightarrow> py ''low'' | Some d \<Rightarrow> d)))"

definition repeats_mface :: "segment \<Rightarrow> content list \<Rightarrow> seg_type option \<Rightarrow> error + bool" where
  "repeats_mface seg contents last_segment =
     (if seg_type seg = SegText \<and> last_segment = Some SegMface \<and> contents \<noteq> [] then
        (case last contents of
           Image_url url detail \<Rightarrow>
             (case seg_text seg of
                None \<Rightarrow> Inl KeyError
              | Some t \<Rightarrow> Inr (detail = t))
         | Text t \<Rightarrow> Inr False)
      else Inr False)"

fun from_message :: "segment list \<Rightarrow> content list \<Rightarrow> seg_type option \<Rightarrow> error + content list" where
  "from_message [] contents last_segment = Inr contents"
| "from_message (seg # segs) contents last_segment =
     (case repeats_mface seg contents last_segment of
        Inl e \<Rightarrow> Inl e
      | Inr True \<Rightarrow> from_message segs contents (Some SegText)
      | Inr False \<Rightarrow>
          (case seg_type seg of
             SegText \<Rightarrow>
               (case seg_text seg of
                  None \<Rightarrow> Inl KeyError
                | Some t \<Rightarrow> from_message segs (contents @ [Text t]) (Some SegText))
           | SegImage \<Rightarrow>
               (case image_content seg of
                  Inl e \<Rightarrow> Inl e
                | Inr c \<Rightarrow> from_message segs (contents @ [c]) (Some SegImage))
           | SegMface \<Rightarrow>
               (case image_content seg of
                  Inl e \<Rightarrow> Inl e
                | Inr c \<Rightarrow> from_message segs (contents @ [c]) (Some SegMface))
           | SegOther \<Rightarrow> from_message segs contents (Some SegOther)))"

text \<open>\<^verbatim>\<open>SimpleMessage.__init__(message_event, time)\<close>.\<close>

definition SimpleMessage_init :: "event \<Rightarrow> int \<Rightarrow> error + simple_message" where
  "SimpleMessage_init ev t =
     (case from_message (segments ev) [] None of
        Inl e \<Rightarrow> Inl e
      | Inr contents \<Rightarrow>
          Inr \<lparr>user_name = (case sender_nickname ev of None \<Rightarrow> [] | Some n \<Rightarrow> n),
               user_id = IntId (ev_user_id ev),
               time = t,
               message = contents\<rparr>)"

text \<open>
  \<^verbatim>\<open>Session._try_merge_message\<close>: the flag it returns and the session it leaves. Only the
  last entry is read; on a merge its \<^verbatim>\<open>message\<close> list is extended in place.
\<close>

definition try_merge_message :: "session \<Rightarrow> simple_message \<Rightarrow> bool \<times> session" where
  "try_merge_message s new_message =
     (if messages s = [] then (False, s)
      else
        (let last_message = last (messages s) in
         if user_id last_message = user_id new_message \<and>
            \<bar>time last_message - time new_message\<bar> \<le> 180
         then (True,
               s\<lparr>messages := butlast (messages s) @
                   [last_message\<lparr>message := message last_message @ message new_message\<rparr>]\<rparr>)
         else (False, s)))"

text \<open>
  \<^verbatim>\<open>Session.add_message(event_or_message)\<close>. The argument is an event (left) or a message
  (right). \<^verbatim>\<open>self.messages.pop(0)\<close> raises \<^verbatim>\<open>IndexError\<close> on an empty list, which
  happens when \<^verbatim>\<open>max_histories\<close> is not positive. A raised exception leaves the session as
  it was: the result is the error, or the session after the call. The write of the
  session's file that ends the call swallows its own errors and changes nothing in memory;
  it is not part of the model.
\<close>

definition add_message :: "session \<Rightarrow> event + simple_message \<Rightarrow> error + session" where
  "add_message s event_or_message =
     (case (case event_or_message of
              Inr m \<Rightarrow> Inr m
            | Inl ev \<Rightarrow> SimpleMessage_init ev (ev_time ev)) of
        Inl e \<Rightarrow> Inl e
      | Inr msg \<Rightarrow>
          (case try_merge_message s msg of
             (True, s') \<Rightarrow> Inr s'
           | (False, s') \<Rightarrow>
               (if max_histories s' \<le> int (length (messages s')) then
                  (case messages s' of
                     [] \<Rightarrow> Inl IndexError
                   | removed # kept \<Rightarrow> Inr (s'\<lparr>messages := kept @ [msg]\<rparr>))
                else Inr (s'\<lparr>messages := messages s' @ [msg]\<rparr>))))"

text \<open>The session after a call: the one returned, or the old one when the call raised.\<close>

definition after_call :: "session \<Rightarrow> error + session \<Rightarrow> session" where
  "after_call s r = (case r of Inl e \<Rightarrow> s | Inr s' \<Rightarrow> s')"

fun add_messages :: "session \<Rightarrow> (event + simple_message) list \<Rightarrow> session" where
  "add_messages s [] = s"
| "add_messages s (x # xs) = add_messages (after_call s (add_message s x)) xs"

definition clear_history :: "session \<Rightarrow> session" where
  "clear_history s = s\<lparr>messages := []\<rparr>"

text \<open>
  \<^verbatim>\<open>SessionManager\<close>: the registry \<^verbatim>\<open>sessions: Dict[int, Session]\<close>. Its keys are the
  numeric ids alone. \<open>stored\<close> is what \<^verbatim>\<open>Session._load_session\<close> reads for a new
  session: the messages of the file \<^verbatim>\<open>{session_type}_{session_id}.json\<close>, or nothing when
  there is no such file or it cannot be read.
\<close>

type_synonym registry = "int \<rightharpoonup> session"

definition Session_init ::
  "(session_type \<Rightarrow> int \<Rightarrow> simple_message list) \<Rightarrow> int \<Rightarrow> session_type \<Rightarrow> int \<Rightarrow> int
     \<Rightarrow> error + session" where
  "Session_init stored sid ty me max_h =
     (if sid \<le> 0 then Inl ValueError
      else Inr \<lparr>session_id = sid, session_type = ty, self_id = me, max_histories = max_h,
                messages = stored ty sid\<rparr>)"

definition get_session ::
  "(session_type \<Rightarrow> int \<Rightarrow> simple_message list) \<Rightarrow> registry \<Rightarrow> event
     \<Rightarrow> error + (session \<times> registry)" where
  "get_session stored reg ev =
     (let sid = event_session_id ev;
          ty = (case kind ev of GroupMessageEvent gid \<Rightarrow> Group | _ \<Rightarrow> Private)
      in case reg sid of
           Some s \<Rightarrow> Inr (s, reg)
         | None \<Rightarrow>
             (case Session_init stored sid ty (ev_self_id ev) 10 of
                Inl e \<Rightarrow> Inl e
              | Inr s \<Rightarrow> Inr (s, reg(sid \<mapsto> s))))"

text \<open>
  \<^verbatim>\<open>add_self_message\<close>: an exception of \<^verbatim>\<open>add_message\<close> is logged and swallowed, and an
  unknown id only logs a warning.
\<close>

definition add_self_message :: "registry \<Rightarrow> int \<Rightarrow> simple_message \<Rightarrow> registry" where
  "add_self_message reg sid msg =
     (case reg sid of
        None \<Rightarrow> reg
      | Some s \<Rightarrow> reg(sid \<mapsto> after_call s (add_message s (Inr msg))))"

text \<open>
  \<^verbatim>\<open>delete_session\<close>: the entry leaves the registry; the file that is unlinked is the one
  named after the removed session's own type, which the second component returns.
\<close>

definition delete_session :: "registry \<Rightarrow> int \<Rightarrow> registry \<times> (session_type \<times> int) option" where
  "delete_session reg sid =
     (case reg sid of
        None \<Rightarrow> (reg, None)
      | Some s \<Rightarrow> (reg(sid := None), Some (session_type s, sid)))"

section \<open>Access and mention checks (\_\_init\_\_.py)\<close>

text \<open>
  What the plugin reads of its surroundings: the values of \<^verbatim>\<open>config_manager\<close> (the
  configuration and character files as they are read), \<^verbatim>\<open>str.lower\<close>, whose table of the
  Unicode database is taken as a parameter, and the stored session files.
\<close>

record config =
  admin_id :: "int list"
  private_enable_whitelist :: bool
  private_whitelist :: "int list"
  private_blacklist :: "int list"
  group_enable_whitelist :: bool
  group_whitelist :: "int list"
  group_blacklist :: "int list"
  character_name :: pystr
  character_alias :: "pystr list"
  lower :: "pystr \<Rightarrow> pystr"
  stored :: "session_type \<Rightarrow> int \<Rightarrow> simple_message list"

definition startswith_any :: "pystr \<Rightarrow> nat list \<Rightarrow> bool" where
  "startswith_any s cs = (case s of [] \<Rightarrow> False | c # rest \<Rightarrow> c \<in> set cs)"

definition check_access :: "config \<Rightarrow> event \<Rightarrow> bool" where
  "check_access cfg ev =
     (if startswith_any (strip (raw_message ev)) [47, 33, 46] then False
      else
        (case kind ev of
           PrivateMessageEvent \<Rightarrow>
             (if ev_user_id ev \<in> set (admin_id cfg) then True
              else if private_enable_whitelist cfg then ev_user_id ev \<in> set (private_whitelist cfg)
              else ev_user_id ev \<notin> set (private_blacklist cfg))
         | GroupMessageEvent gid \<Rightarrow>
             (if group_enable_whitelist cfg then gid \<in> set (group_whitelist cfg)
              else gid \<notin> set (group_blacklist cfg))
         | OtherMessageEvent \<Rightarrow> False))"

definition name_mentioned :: "config \<Rightarrow> pystr \<Rightarrow> pystr \<Rightarrow> bool" where
  "name_mentioned cfg msg_text name =
     (if name = [] then False
      else if isascii name then list_ex (\<lambda>word. lower cfg word = lower cfg name) (split_ws msg_text)
      else py_in name msg_text)"

definition check_mention :: "config \<Rightarrow> event \<Rightarrow> bool" where
  "check_mention cfg ev =
     (if \<not> check_access cfg ev then False
      else if kind ev = PrivateMessageEvent then True
      else if is_tome ev then True
      else list_ex (name_mentioned cfg (strip (plaintext ev)))
             (character_name cfg # character_alias cfg))"

section \<open>The debounce scheduler (\_\_init\_\_.py)\<close>

text \<open>
  \<^verbatim>\<open>handle_llm_query\<close>: what the awaited \<^verbatim>\<open>api_client.chat_completion\<close> gives is an
  exception, \<^verbatim>\<open>None\<close> or a string. An exception and a falsy response give no parts;
  otherwise the response is split at \<^verbatim>\<open>'\n'\<close> (code point 10) and the lines that are
  not blank are kept, stripped.
\<close>

datatype query_outcome = Raised | Returned "pystr option"

definition handle_llm_query :: "query_outcome \<Rightarrow> pystr list" where
  "handle_llm_query outcome =
     (case outcome of
        Raised \<Rightarrow> []
      | Returned None \<Rightarrow> []
      | Returned (Some response) \<Rightarrow>
          (if response = [] then []
           else map strip (filter (\<lambda>line. strip line \<noteq> []) (split_on 10 response))))"

text \<open>
  \<^verbatim>\<open>delay = max(0.75, min(1.5, len(msg) / 60))\<close>. Python computes the quotient in binary
  floating point; the model computes it exactly.
\<close>

definition delay :: "pystr \<Rightarrow> real" where
  "delay msg = max 0.75 (min 1.5 (real (length msg) / 60))"

text \<open>
  The dictionary handed to \<^verbatim>\<open>SimpleMessage.from_dict\<close> and what it makes of it. A
  \<^verbatim>\<open>"time"\<close> string stands for the timestamp \<^verbatim>\<open>strptime\<close> reads from it; the content
  dictionaries are taken as already well formed (\<^verbatim>\<open>{"type": "text", "text": t}\<close> is
  \<open>Text t\<close>). \<^verbatim>\<open>user_id\<close> is copied as it is.
\<close>

datatype dict_time = TimeStr int | TimeInt int | TimeOther

record message_dict =
  d_user_name :: pystr
  d_user_id :: py_id
  d_time :: dict_time
  d_message :: "content list"

definition from_dict :: "message_dict \<Rightarrow> error + simple_message" where
  "from_dict d =
     (case d_time d of
        TimeStr t \<Rightarrow>
          Inr \<lparr>user_name = d_user_name d, user_id = d_user_id d, time = t, message = d_message d\<rparr>
      | TimeInt t \<Rightarrow>
          Inr \<lparr>user_name = d_user_name d, user_id = d_user_id d, time = t, message = d_message d\<rparr>
      | TimeOther \<Rightarrow> Inl ValueError)"

text \<open>
  The dictionary \<^verbatim>\<open>delayed_llm_query\<close> builds for the bot's reply; \<open>wall\<close> is the wall
  clock \<^verbatim>\<open>datetime.now()\<close>, in whole seconds.
\<close>

definition bot_message_dict :: "config \<Rightarrow> event \<Rightarrow> int \<Rightarrow> pystr list \<Rightarrow> message_dict" where
  "bot_message_dict cfg ev wall msgs =
     \<lparr>d_user_name = character_name cfg,
      d_user_id = StrId (py_str (ev_self_id ev)),
      d_time = TimeStr wall,
      d_message = map Text msgs\<rparr>"

text \<open>
  The process state. \<open>clock\<close> is the event loop's time, \<open>last_message_time\<close> and
  \<open>pending_sessions\<close> are the fields of \<^verbatim>\<open>SessionState\<close>, \<open>tasks\<close> are the coroutines
  started with \<^verbatim>\<open>asyncio.create_task\<close> (a task's number is its position), and \<open>sent\<close>
  lists the texts handed to \<^verbatim>\<open>matcher.send\<close>, each with the number of the sending task.

  A task is suspended at one of the \<^verbatim>\<open>await\<close>s of \<^verbatim>\<open>delayed_llm_query\<close>:
  \<^item> \<open>Created\<close>: scheduled by \<^verbatim>\<open>create_task\<close>, its body not yet entered;
  \<^item> \<open>AtSleep deadline\<close>: in \<^verbatim>\<open>await asyncio.sleep(5)\<close> of the polling loop;
  \<^item> \<open>AtQuery\<close>: in \<^verbatim>\<open>await handle_llm_query(event, session)\<close>;
  \<^item> \<open>AtSend messages msg rest\<close>: in \<^verbatim>\<open>await matcher.send\<close> of \<open>msg\<close>, with \<open>rest\<close>
    still to send;
  \<^item> \<open>AtDelay deadline messages msg rest\<close>: in \<^verbatim>\<open>await asyncio.sleep(delay)\<close> before
    \<open>msg\<close> is sent;
  \<^item> \<open>Finished\<close>: returned.
\<close>

datatype pc =
    Created
  | AtSleep real
  | AtQuery
  | AtSend "pystr list" pystr "pystr list"
  | AtDelay real "pystr list" pystr "pystr list"
  | Finished

record task =
  t_event :: event
  t_pc :: pc

record world =
  clock :: real
  sessions :: registry
  last_message_time :: "int \<Rightarrow> real"
  pending_sessions :: "int set"
  tasks :: "task list"
  sent :: "(nat \<times> pystr) list"

definition update_time :: "int \<Rightarrow> world \<Rightarrow> world" where
  "update_time sid w = w\<lparr>last_message_time := (last_message_time w)(sid := clock w)\<rparr>"

definition add_pending :: "int \<Rightarrow> world \<Rightarrow> world" where
  "add_pending sid w = w\<lparr>pending_sessions := insert sid (pending_sessions w)\<rparr>"

definition remove_pending :: "int \<Rightarrow> world \<Rightarrow> world" where
  "remove_pending sid w = w\<lparr>pending_sessions := pending_sessions w - {sid}\<rparr>"

definition is_pending :: "int \<Rightarrow> world \<Rightarrow> bool" where
  "is_pending sid w \<longleftrightarrow> sid \<in> pending_sessions w"

definition create_task :: "event \<Rightarrow> world \<Rightarrow> world" where
  "create_task ev w = w\<lparr>tasks := tasks w @ [\<lparr>t_event = ev, t_pc = Created\<rparr>]\<rparr>"

text \<open>
  \<^verbatim>\<open>handle_all_message\<close> has no \<^verbatim>\<open>await\<close>: it runs from its first line to its last
  without another coroutine in between. Its \<^verbatim>\<open>except Exception\<close> logs and drops whatever
  \<^verbatim>\<open>get_session\<close> or \<^verbatim>\<open>add_message\<close> raises, so the lines after them do not run then.
  \<^verbatim>\<open>create_task\<close> only schedules the coroutine: its first line runs when the event loop
  gets to it.
\<close>

definition handle_all_message :: "config \<Rightarrow> event \<Rightarrow> world \<Rightarrow> world" where
  "handle_all_message cfg ev w =
     (if \<not> check_access cfg ev then w
      else
        (case get_session (stored cfg) (sessions w) ev of
           Inl e \<Rightarrow> w
         | Inr (s, reg) \<Rightarrow>
             (case add_message s (Inl ev) of
                Inl e \<Rightarrow> w\<lparr>sessions := reg\<rparr>
              | Inr s' \<Rightarrow>
                  (let sid = event_session_id ev;
                       w1 = update_time sid (w\<lparr>sessions := reg(sid \<mapsto> s')\<rparr>)
                   in if check_mention cfg ev \<and> \<not> is_pending sid w1
                      then create_task ev w1
                      else w1))))"

text \<open>\<^verbatim>\<open>handle_clear\<close>, the \<^verbatim>\<open>/clear\<close> command.\<close>

definition handle_clear :: "config \<Rightarrow> event \<Rightarrow> world \<Rightarrow> world" where
  "handle_clear cfg ev w =
     (case get_session (stored cfg) (sessions w) ev of
        Inl e \<Rightarrow> w
      | Inr (s, reg) \<Rightarrow> w\<lparr>sessions := reg(event_session_id ev \<mapsto> clear_history s)\<rparr>)"

text \<open>
  \<^verbatim>\<open>delayed_llm_query\<close>, one resumption at a time: the code that runs from the
  \<^verbatim>\<open>await\<close> the task is suspended at to the next one, given what the \<^verbatim>\<open>await\<close>
  delivers. \<open>Proceed\<close> lets a new task run its first lines and ends a sleep whose deadline
  has come; \<open>QueryResult\<close> ends the query; \<open>SendOk wall\<close> ends a \<^verbatim>\<open>matcher.send\<close>
  (\<open>wall\<close> is the wall clock, read if the reply is recorded next); \<open>SendError\<close> is an
  exception raised by \<^verbatim>\<open>matcher.send\<close>; \<open>Cancelled\<close> is \<^verbatim>\<open>asyncio.CancelledError\<close>
  raised at the \<^verbatim>\<open>await\<close>. The result is \<open>None\<close> when the task cannot be resumed that
  way.

  \<open>cycle_exit\<close> is the \<^verbatim>\<open>finally\<close> block followed by the return. A task cancelled before
  its first line never enters the \<^verbatim>\<open>try\<close>, so its \<^verbatim>\<open>finally\<close> does not run.
\<close>

datatype resumption = Proceed | QueryResult query_outcome | SendOk int | SendError | Cancelled

definition set_pc :: "nat \<Rightarrow> pc \<Rightarrow> world \<Rightarrow> world" where
  "set_pc tid p w = w\<lparr>tasks := (tasks w)[tid := (tasks w ! tid)\<lparr>t_pc := p\<rparr>]\<rparr>"

definition cycle_exit :: "nat \<Rightarrow> event \<Rightarrow> world \<Rightarrow> world" where
  "cycle_exit tid ev w = set_pc tid Finished (remove_pending (event_session_id ev) w)"

fun delayed_llm_query ::
  "config \<Rightarrow> nat \<Rightarrow> event \<Rightarrow> pc \<Rightarrow> resumption \<Rightarrow> world \<Rightarrow> world option" where
  "delayed_llm_query cfg tid ev Created Proceed w =
     (let sid = event_session_id ev;
          w1 = update_time sid (add_pending sid w)
      in Some (set_pc tid (AtSleep (clock w1 + 5)) w1))"
| "delayed_llm_query cfg tid ev Created Cancelled w = Some (set_pc tid Finished w)"
| "delayed_llm_query cfg tid ev (AtSleep deadline) Proceed w =
     (if clock w < deadline then None
      else if 3 \<le> clock w - last_message_time w (event_session_id ev)
      then Some (set_pc tid AtQuery w)
      else Some (set_pc tid (AtSleep (clock w + 5)) w))"
| "delayed_llm_query cfg tid ev (AtSleep deadline) Cancelled w = Some (cycle_exit tid ev w)"
| "delayed_llm_query cfg tid ev AtQuery (QueryResult outcome) w =
     (case handle_llm_query outcome of
        [] \<Rightarrow> Some (cycle_exit tid ev w)
      | first_msg # rest \<Rightarrow> Some (set_pc tid (AtSend (first_msg # rest) first_msg rest) w))"
| "delayed_llm_query cfg tid ev AtQuery Cancelled w = Some (cycle_exit tid ev w)"
| "delayed_llm_query cfg tid ev (AtSend msgs msg rest) (SendOk wall) w =
     (let w1 = w\<lparr>sent := sent w @ [(tid, msg)]\<rparr> in
      case rest of
        nxt # rest' \<Rightarrow> Some (set_pc tid (AtDelay (clock w1 + delay nxt) msgs nxt rest') w1)
      | [] \<Rightarrow>
          (case from_dict (bot_message_dict cfg ev wall msgs) of
             Inl e \<Rightarrow> Some (cycle_exit tid ev w1)
           | Inr bot_message \<Rightarrow>
               Some (cycle_exit tid ev
                 (w1\<lparr>sessions :=
                       add_self_message (sessions w1) (event_session_id ev) bot_message\<rparr>))))"
| "delayed_llm_query cfg tid ev (AtSend msgs msg rest) SendError w = Some (cycle_exit tid ev w)"
| "delayed_llm_query cfg tid ev (AtSend msgs msg rest) Cancelled w = Some (cycle_exit tid ev w)"
| "delayed_llm_query cfg tid ev (AtDelay deadline msgs msg rest) Proceed w =
     (if clock w < deadline then None else Some (set_pc tid (AtSend msgs msg rest) w))"
| "delayed_llm_query cfg tid ev (AtDelay deadline msgs msg rest) Cancelled w =
     Some (cycle_exit tid ev w)"
| "delayed_llm_query cfg tid ev p r w = None"

text \<open>
  What can happen next in the process: an inbound message is handled, the \<^verbatim>\<open>/clear\<close>
  command is handled, time passes, or the event loop resumes a task.
\<close>

datatype label = Msg event | Clear event | Elapse real | Resume nat resumption

fun step :: "config \<Rightarrow> label \<Rightarrow> world \<Rightarrow> world option" where
  "step cfg (Msg ev) w = Some (handle_all_message cfg ev w)"
| "step cfg (Clear ev) w = Some (handle_clear cfg ev w)"
| "step cfg (Elapse d) w = (if d < 0 then None else Some (w\<lparr>clock := clock w + d\<rparr>))"
| "step cfg (Resume tid r) w =
     (if tid < length (tasks w)
      then delayed_llm_query cfg tid (t_event (tasks w ! tid)) (t_pc (tasks w ! tid)) r w
      else None)"

fun run :: "config \<Rightarrow> label list \<Rightarrow> world \<Rightarrow> world option" where
  "run cfg [] w = Some w"
| "run cfg (l # ls) w = (case step cfg l w of None \<Rightarrow> None | Some w' \<Rightarrow> run cfg ls w')"

text \<open>
  Exact timers: time does not pass beyond the deadline of a sleeping task, so that a sleep
  ends at its deadline and not later.
\<close>

definition before_deadline :: "real \<Rightarrow> task \<Rightarrow> bool" where
  "before_deadline t tsk =
     (case t_pc tsk of
        AtSleep deadline \<Rightarrow> t \<le> deadline
      | AtDelay deadline msgs msg rest \<Rightarrow> t \<le> deadline
      | _ \<Rightarrow> True)"

definition timely :: "label \<Rightarrow> world \<Rightarrow> bool" where
  "timely l w =
     (case l of
        Elapse d \<Rightarrow> list_all (before_deadline (clock w + d)) (tasks w)
      | _ \<Rightarrow> True)"


text \<open>The process at start: nothing pending, no task, nothing sent.\<close>

definition init_world :: "real \<Rightarrow> registry \<Rightarrow> world" where
  "init_world t0 reg =
     \<lparr>clock = t0, sessions = reg, last_message_time = (\<lambda>sid. 0), pending_sessions = {},
      tasks = [], sent = []\<rparr>"

text \<open>A task is in flight from its first line to its return.\<close>

definition in_flight :: "task \<Rightarrow> bool" where
  "in_flight tsk \<longleftrightarrow> t_pc tsk \<noteq> Created \<and> t_pc tsk \<noteq> Finished"

text \<open>
  An inbound event is ingested when neither \<^verbatim>\<open>get_session\<close> nor \<^verbatim>\<open>add_message\<close> raises
  for it: the lines of \<^verbatim>\<open>handle_all_message\<close> after them run exactly then.
\<close>

definition ingested :: "config \<Rightarrow> event \<Rightarrow> world \<Rightarrow> bool" where
  "ingested cfg ev w =
     (case get_session (stored cfg) (sessions w) ev of
        Inl e \<Rightarrow> False
      | Inr (s, reg) \<Rightarrow> (case add_message s (Inl ev) of Inl e \<Rightarrow> False | Inr s' \<Rightarrow> True))"

section \<open>Notions for the properties\<close>

text \<open>The session type \<^verbatim>\<open>get_session\<close> gives a session it creates for an event.\<close>

definition event_session_type :: "event \<Rightarrow> session_type" where
  "event_session_type ev = (case kind ev of GroupMessageEvent gid \<Rightarrow> Group | _ \<Rightarrow> Private)"

text \<open>
  A conversation is at rest when none of its tasks is in flight. The flag of a conversation
  is covered when some task of that conversation is in flight.
\<close>

definition at_rest :: "int \<Rightarrow> world \<Rightarrow> bool" where
  "at_rest sid w \<longleftrightarrow>
     \<not> list_ex (\<lambda>t. event_session_id (t_event t) = sid \<and> in_flight t) (tasks w)"

definition pending_covered :: "world \<Rightarrow> bool" where
  "pending_covered w \<longleftrightarrow>
     (\<forall>sid \<in> pending_sessions w.
        \<exists>t \<in> set (tasks w). in_flight t \<and> event_session_id (t_event t) = sid)"

text \<open>
  A schedule that lets task \<open>tid\<close> deliver the parts \<open>rest\<close> that follow the one being
  sent: for each of them its delay passes, the sleep ends, and the send completes.
\<close>

definition send_rest :: "nat \<Rightarrow> int \<Rightarrow> pystr list \<Rightarrow> label list" where
  "send_rest tid wall rest =
     concat (map (\<lambda>msg. [Elapse (delay msg), Resume tid Proceed, Resume tid (SendOk wall)]) rest)"


section \<open>Example values\<close>

text \<open>
  A configuration that an operator can set, not the defaults of \<^verbatim>\<open>config_manager\<close>
  (which have the group white list on and the private one off): the private white list is
  on and empty, the group white list is off and the group black list empty, so that every
  group is admitted and no private chat is. The character is called Kira, \<^verbatim>\<open>lower\<close> is
  \<^verbatim>\<open>str.lower\<close> on ASCII text, and there are no stored session files. The events are
  group events with one text segment.
\<close>

definition ascii_lower :: "pystr \<Rightarrow> pystr" where
  "ascii_lower s = map (\<lambda>c. if 65 \<le> c \<and> c \<le> 90 then c + 32 else c) s"

definition demo_config :: config where
  "demo_config =
     \<lparr>admin_id = [], private_enable_whitelist = True, private_whitelist = [],
      private_blacklist = [], group_enable_whitelist = False, group_whitelist = [],
      group_blacklist = [], character_name = py ''Kira'', character_alias = [],
      lower = ascii_lower, stored = (\<lambda>ty sid. [])\<rparr>"

definition group_event :: "int \<Rightarrow> int \<Rightarrow> bool \<Rightarrow> pystr \<Rightarrow> event" where
  "group_event gid uid tome txt =
     \<lparr>kind = GroupMessageEvent gid, ev_user_id = uid, ev_self_id = 99, ev_time = 1700000000,
      sender_nickname = Some (py ''Ann''), raw_message = txt, plaintext = txt, is_tome = tome,
      segments = [\<lparr>seg_type = SegText, seg_text = Some txt, seg_url = None, seg_summary = None\<rparr>]\<rparr>"

definition mention_event :: event where
  "mention_event = group_event 7 1 True (py ''hi'')"

definition chatter_event :: event where
  "chatter_event = group_event 7 2 False (py ''lunch now'')"

definition said :: "int \<Rightarrow> int \<Rightarrow> pystr \<Rightarrow> simple_message" where
  "said uid t txt = \<lparr>user_name = py ''Ann'', user_id = IntId uid, time = t, message = [Text txt]\<rparr>"

definition small_session :: "simple_message list \<Rightarrow> session" where
  "small_session ms =
     \<lparr>session_id = 7, session_type = Group, self_id = 99, max_histories = 2, messages = ms\<rparr>"

definition private_event :: "int \<Rightarrow> pystr \<Rightarrow> event" where
  "private_event uid txt =
     \<lparr>kind = PrivateMessageEvent, ev_user_id = uid, ev_self_id = 99, ev_time = 1700000000,
      sender_nickname = Some (py ''Bob''), raw_message = txt, plaintext = txt, is_tome = True,
      segments = [\<lparr>seg_type = SegText, seg_text = Some txt, seg_url = None, seg_summary = None\<rparr>]\<rparr>"

text \<open>A group message whose only segment is an image without the \<^verbatim>\<open>"url"\<close> key.\<close>

definition image_without_url :: event where
  "image_without_url =
     (group_event 7 2 False (py ''look''))
       \<lparr>segments := [\<lparr>seg_type = SegImage, seg_text = None, seg_url = None,
                       seg_summary = None\<rparr>]\<rparr>"

section \<open>The bounded history\<close>

lemma try_merge_length:
  "length (messages (snd (try_merge_message s m))) = length (messages s)"
  by (cases "messages s" rule: rev_cases) (auto simp: try_merge_message_def Let_def)

lemma try_merge_max:
  "max_histories (snd (try_merge_message s m)) = max_histories s"
  by (auto simp: try_merge_message_def Let_def)

lemma try_merge_False:
  "try_merge_message s m = (False, s') \<Longrightarrow> s' = s"
  by (auto simp: try_merge_message_def Let_def split: if_splits)

lemma add_message_bound:
  assumes "int (length (messages s)) \<le> max_histories s"
  shows "int (length (messages (after_call s (add_message s x)))) \<le> max_histories s
       \<and> max_histories (after_call s (add_message s x)) = max_histories s"
proof (cases "add_message s x")
  case (Inl e)
  with assms show ?thesis by (simp add: after_call_def)
next
  case (Inr s')
  then obtain msg where m:
    "(case x of Inr m \<Rightarrow> Inr m | Inl ev \<Rightarrow> SimpleMessage_init ev (ev_time ev)) = Inr msg"
    by (auto simp: add_message_def split: sum.splits)
  show ?thesis
  proof (cases "fst (try_merge_message s msg)")
    case True
    then have "s' = snd (try_merge_message s msg)"
      using Inr m by (cases "try_merge_message s msg") (auto simp: add_message_def)
    with assms Inr show ?thesis
      by (simp add: after_call_def try_merge_length try_merge_max)
  next
    case False
    then have u: "try_merge_message s msg = (False, s)"
      by (cases "try_merge_message s msg") (auto dest: try_merge_False)
    with assms Inr m show ?thesis
      by (auto simp: add_message_def after_call_def split: if_splits list.splits)
  qed
qed

text \<open>
  C2. A session whose history is no longer than its capacity \<^verbatim>\<open>max_histories\<close> stays so
  after every call of \<^verbatim>\<open>add_message\<close>, whatever events and messages are appended, in any
  number; the capacity itself does not change. A call that raises counts: it leaves the
  history as it was.
\<close>

theorem append_keeps_capacity:
  assumes "int (length (messages s)) \<le> max_histories s"
  shows "int (length (messages (add_messages s xs))) \<le> max_histories s
       \<and> max_histories (add_messages s xs) = max_histories s"
  using assms
proof (induction xs arbitrary: s)
  case Nil
  then show ?case by simp
next
  case (Cons x xs)
  let ?s1 = "after_call s (add_message s x)"
  from add_message_bound [OF Cons.prems, of x]
  have b: "int (length (messages ?s1)) \<le> max_histories ?s1"
    and c: "max_histories ?s1 = max_histories s"
    by simp_all
  from Cons.IH [OF b] c show ?case by simp
qed

theorem append_keeps_capacity_witness:
  "int (length (messages (small_session []))) \<le> max_histories (small_session [])
   \<and> int (length (messages (add_messages (small_session [])
        [Inr (said 1 0 (py ''a'')), Inr (said 2 5 (py ''b'')), Inl mention_event,
         Inr (said 3 9 (py ''c''))]))) \<le> 2"
  using append_keeps_capacity [of "small_session []"
    "[Inr (said 1 0 (py ''a'')), Inr (said 2 5 (py ''b'')), Inl mention_event,
      Inr (said 3 9 (py ''c''))]"]
  by (simp add: small_session_def)

section \<open>Merging on arrival\<close>

lemma try_merge_fst:
  "fst (try_merge_message s m) \<longleftrightarrow>
     messages s \<noteq> [] \<and> user_id (last (messages s)) = user_id m
       \<and> \<bar>time (last (messages s)) - time m\<bar> \<le> 180"
  by (simp add: try_merge_message_def Let_def)





section \<open>The registry of sessions\<close>

lemma get_session_known:
  "reg (event_session_id ev) = Some s \<Longrightarrow> get_session st reg ev = Inr (s, reg)"
  by (simp add: get_session_def Let_def)

lemma get_session_new:
  "reg (event_session_id ev) = None \<Longrightarrow>
   get_session st reg ev =
     (case Session_init st (event_session_id ev) (event_session_type ev) (ev_self_id ev) 10 of
        Inl e \<Rightarrow> Inl e
      | Inr s \<Rightarrow> Inr (s, reg(event_session_id ev \<mapsto> s)))"
  by (simp add: get_session_def event_session_type_def Let_def)

lemma get_session_registers:
  "get_session st reg ev = Inr (s, reg') \<Longrightarrow> reg' (event_session_id ev) = Some s"
  by (cases "reg (event_session_id ev)")
     (auto simp: get_session_known get_session_new split: sum.splits)

lemma get_session_type:
  "reg (event_session_id ev) = None \<Longrightarrow> get_session st reg ev = Inr (s, reg') \<Longrightarrow>
   session_type s = event_session_type ev \<and> session_id s = event_session_id ev"
  by (auto simp: get_session_new Session_init_def split: sum.splits if_splits)

text \<open>
  C9. The registry is keyed by the numeric id alone. An event whose id is registered gets
  the registered session whatever its kind. After \<^verbatim>\<open>get_session\<close> has created a session
  for one event, an event of the other kind with the same number gets that same session,
  and the session keeps the type of the event that created it. \<^verbatim>\<open>delete_session\<close>
  removes the one entry under the number and no other, so that afterwards an event of
  either kind with that number gets a newly created session.
\<close>

theorem registry_keyed_by_number:
  "(reg (event_session_id ev) = Some s \<longrightarrow> get_session st reg ev = Inr (s, reg))
   \<and> (reg (event_session_id ev1) = None \<and> get_session st reg ev1 = Inr (s1, reg1)
        \<and> event_session_id ev2 = event_session_id ev1 \<longrightarrow>
          get_session st reg1 ev2 = Inr (s1, reg1) \<and> session_type s1 = event_session_type ev1)
   \<and> fst (delete_session reg sid) sid = None
   \<and> (\<forall>k. k \<noteq> sid \<longrightarrow> fst (delete_session reg sid) k = reg k)
   \<and> (event_session_id ev = sid \<longrightarrow>
        get_session st (fst (delete_session reg sid)) ev =
          (case Session_init st sid (event_session_type ev) (ev_self_id ev) 10 of
             Inl e \<Rightarrow> Inl e
           | Inr s' \<Rightarrow> Inr (s', reg(sid \<mapsto> s'))))"
proof (intro conjI impI allI)
  assume "reg (event_session_id ev) = Some s"
  then show "get_session st reg ev = Inr (s, reg)" by (rule get_session_known)
next
  assume a: "reg (event_session_id ev1) = None \<and> get_session st reg ev1 = Inr (s1, reg1)
        \<and> event_session_id ev2 = event_session_id ev1"
  then have "reg1 (event_session_id ev2) = Some s1"
    using get_session_registers [of st reg ev1 s1 reg1] by simp
  then show "get_session st reg1 ev2 = Inr (s1, reg1)" by (rule get_session_known)
  from a show "session_type s1 = event_session_type ev1"
    using get_session_type [of reg ev1 st s1 reg1] by simp
next
  show del: "fst (delete_session reg sid) sid = None"
    by (simp add: delete_session_def split: option.splits)
  show "fst (delete_session reg sid) k = reg k" if "k \<noteq> sid" for k
    using that by (simp add: delete_session_def split: option.splits)
  assume e: "event_session_id ev = sid"
  have "fst (delete_session reg sid) = reg(sid := None)"
    by (auto simp: delete_session_def split: option.splits)
  then show "get_session st (fst (delete_session reg sid)) ev =
          (case Session_init st sid (event_session_type ev) (ev_self_id ev) 10 of
             Inl e \<Rightarrow> Inl e
           | Inr s' \<Rightarrow> Inr (s', reg(sid \<mapsto> s')))"
    using e get_session_new [of "reg(sid := None)" ev st] by (auto split: sum.splits)
qed


theorem registry_keyed_by_number_witness:
  "get_session (stored demo_config) Map.empty (group_event 7 1 True (py ''hi'')) =
     Inr (\<lparr>session_id = 7, session_type = Group, self_id = 99, max_histories = 10, messages = []\<rparr>,
          [7 \<mapsto> \<lparr>session_id = 7, session_type = Group, self_id = 99, max_histories = 10,
                    messages = []\<rparr>])
   \<and> get_session (stored demo_config)
         [7 \<mapsto> \<lparr>session_id = 7, session_type = Group, self_id = 99, max_histories = 10,
                   messages = []\<rparr>]
         (private_event 7 (py ''hi'')) =
       Inr (\<lparr>session_id = 7, session_type = Group, self_id = 99, max_histories = 10, messages = []\<rparr>,
            [7 \<mapsto> \<lparr>session_id = 7, session_type = Group, self_id = 99, max_histories = 10,
                      messages = []\<rparr>])
   \<and> fst (delete_session
            [7 \<mapsto> \<lparr>session_id = 7, session_type = Group, self_id = 99, max_histories = 10,
                      messages = []\<rparr>] 7) 7 = None"
proof -
  let ?g = "group_event 7 1 True (py ''hi'')"
  let ?p = "private_event 7 (py ''hi'')"
  let ?s = "\<lparr>session_id = 7, session_type = Group, self_id = 99, max_histories = 10,
             messages = []\<rparr>"
  have ids: "event_session_id ?g = 7" "event_session_id ?p = 7"
    by (simp_all add: event_session_id_def group_event_def private_event_def)
  have new: "get_session (stored demo_config) Map.empty ?g = Inr (?s, [7 \<mapsto> ?s])"
    by (simp add: get_session_def Session_init_def Let_def ids demo_config_def)
       (simp add: group_event_def)
  note T = registry_keyed_by_number [of "Map.empty" ?g ?s "stored demo_config" ?g ?s "[7 \<mapsto> ?s]" ?p 7]
  from T new ids have "get_session (stored demo_config) [7 \<mapsto> ?s] ?p = Inr (?s, [7 \<mapsto> ?s])"
    by simp
  moreover have "fst (delete_session [7 \<mapsto> ?s] 7) 7 = None"
    using registry_keyed_by_number [of "[7 \<mapsto> ?s]" ?p ?s "stored demo_config" ?g ?s "[7 \<mapsto> ?s]" ?p 7]
    by blast
  ultimately show ?thesis using new by blast
qed

section \<open>The scheduler, one step at a time\<close>

text \<open>What the handlers and one resumption of a task do to each field of the process.\<close>

lemma ham_clock [simp]: "clock (handle_all_message cfg ev w) = clock w"
  by (simp add: handle_all_message_def update_time_def create_task_def Let_def split: sum.splits prod.splits)

lemma ham_pending [simp]: "pending_sessions (handle_all_message cfg ev w) = pending_sessions w"
  by (simp add: handle_all_message_def update_time_def create_task_def Let_def split: sum.splits prod.splits)

lemma ham_sent [simp]: "sent (handle_all_message cfg ev w) = sent w"
  by (simp add: handle_all_message_def update_time_def create_task_def Let_def split: sum.splits prod.splits)

lemma ham_lmt:
  "last_message_time (handle_all_message cfg ev w) =
     (if check_access cfg ev \<and> ingested cfg ev w
      then (last_message_time w)(event_session_id ev := clock w)
      else last_message_time w)"
  by (simp add: handle_all_message_def ingested_def update_time_def create_task_def Let_def split: sum.splits prod.splits)

lemma ham_tasks:
  "tasks (handle_all_message cfg ev w) =
     (if check_mention cfg ev \<and> ingested cfg ev w \<and> \<not> is_pending (event_session_id ev) w
      then tasks w @ [\<lparr>t_event = ev, t_pc = Created\<rparr>]
      else tasks w)"
  by (auto simp add: handle_all_message_def ingested_def update_time_def create_task_def is_pending_def check_mention_def Let_def split: sum.splits prod.splits)

lemma hc_proj [simp]:
  "clock (handle_clear cfg ev w) = clock w"
  "pending_sessions (handle_clear cfg ev w) = pending_sessions w"
  "sent (handle_clear cfg ev w) = sent w"
  "tasks (handle_clear cfg ev w) = tasks w"
  "last_message_time (handle_clear cfg ev w) = last_message_time w"
  by (simp_all add: handle_clear_def split: sum.splits prod.splits)

lemma set_pc_proj [simp]:
  "clock (set_pc tid p w) = clock w"
  "pending_sessions (set_pc tid p w) = pending_sessions w"
  "sent (set_pc tid p w) = sent w"
  "sessions (set_pc tid p w) = sessions w"
  "last_message_time (set_pc tid p w) = last_message_time w"
  "tasks (set_pc tid p w) = (tasks w)[tid := (tasks w ! tid)\<lparr>t_pc := p\<rparr>]"
  by (simp_all add: set_pc_def)

lemma cycle_exit_proj [simp]:
  "clock (cycle_exit tid ev w) = clock w"
  "pending_sessions (cycle_exit tid ev w) = pending_sessions w - {event_session_id ev}"
  "sent (cycle_exit tid ev w) = sent w"
  "sessions (cycle_exit tid ev w) = sessions w"
  "last_message_time (cycle_exit tid ev w) = last_message_time w"
  "tasks (cycle_exit tid ev w) = (tasks w)[tid := (tasks w ! tid)\<lparr>t_pc := Finished\<rparr>]"
  by (simp_all add: cycle_exit_def remove_pending_def)

lemmas dlq_defs = Let_def update_time_def add_pending_def



lemma dlq_tasks:
  "delayed_llm_query cfg tid ev p r w = Some w' \<Longrightarrow> tid < length (tasks w) \<Longrightarrow>
   tasks w' = (tasks w)[tid := (tasks w ! tid)\<lparr>t_pc := t_pc (tasks w' ! tid)\<rparr>]"
  by (cases p; cases r) (auto simp: dlq_defs split: list.splits sum.splits if_splits)

lemma dlq_sent_mono:
  "delayed_llm_query cfg tid ev p r w = Some w' \<Longrightarrow> \<exists>extra. sent w' = sent w @ extra"
  by (cases p; cases r) (auto simp: dlq_defs split: list.splits sum.splits if_splits)

lemma dlq_pending:
  "delayed_llm_query cfg tid ev p r w = Some w' \<Longrightarrow> tid < length (tasks w) \<Longrightarrow>
   pending_sessions w' =
     (if p = Created \<and> r = Proceed then insert (event_session_id ev) (pending_sessions w)
      else if t_pc (tasks w' ! tid) = Finished \<and> p \<noteq> Created
      then pending_sessions w - {event_session_id ev}
      else pending_sessions w)"
  by (cases p; cases r) (auto simp: dlq_defs split: list.splits sum.splits if_splits)

lemma dlq_enabled:
  "delayed_llm_query cfg tid ev p r w = Some w' \<Longrightarrow> p \<noteq> Finished"
  by (cases p; cases r) auto

lemma dlq_not_created:
  "delayed_llm_query cfg tid ev p r w = Some w' \<Longrightarrow> tid < length (tasks w) \<Longrightarrow>
   t_pc (tasks w' ! tid) \<noteq> Created"
  by (cases p; cases r) (auto simp: dlq_defs split: list.splits sum.splits if_splits)

lemma dlq_start:
  "delayed_llm_query cfg tid ev Created r w = Some w' \<Longrightarrow> tid < length (tasks w) \<Longrightarrow>
   t_pc (tasks w' ! tid) = (if r = Proceed then AtSleep (clock w + 5) else Finished)"
  by (cases r) (auto simp: dlq_defs)



lemma dlq_delay:
  "delayed_llm_query cfg tid ev p r w = Some w' \<Longrightarrow> tid < length (tasks w) \<Longrightarrow>
   t_pc (tasks w' ! tid) = AtDelay d' ms m rest \<Longrightarrow> clock w \<le> d'"
  by (cases p; cases r) (auto simp: dlq_defs delay_def split: list.splits sum.splits if_splits)

section \<open>Evaluating the examples\<close>

lemma demo_access: "check_access demo_config (group_event gid uid tome txt) \<longleftrightarrow> \<not> startswith_any (strip txt) [47, 33, 46]"
  by (simp add: check_access_def demo_config_def group_event_def)

lemma demo_mention: "check_mention demo_config (group_event gid uid True txt) \<longleftrightarrow> \<not> startswith_any (strip txt) [47, 33, 46]"
  by (simp add: check_mention_def demo_access) (simp add: group_event_def)

lemma demo_strip: "strip (py ''hi'') = py ''hi''" "strip (py ''lunch now'') = py ''lunch now''"
  by (simp_all add: strip_def py_def isspace_def)

lemma demo_not_command: "\<not> startswith_any (py ''hi'') [47, 33, 46]" "\<not> startswith_any (py ''lunch now'') [47, 33, 46]"
  by (simp_all add: startswith_any_def py_def)

lemma demo_no_mention: "\<not> check_mention demo_config (group_event gid uid False (py ''lunch now''))"
  by (simp add: check_mention_def demo_access name_mentioned_def demo_strip demo_not_command) (simp add: demo_config_def group_event_def strip_def py_def isspace_def isascii_def split_ws_def ascii_lower_def)

lemma group_event_id: "event_session_id (group_event gid uid tome txt) = gid"
  by (simp add: event_session_id_def group_event_def)

lemma group_event_kind: "kind (group_event gid uid tome txt) = GroupMessageEvent gid" "ev_self_id (group_event gid uid tome txt) = 99"
  by (simp_all add: group_event_def)

lemma stored_demo: "stored demo_config = (\<lambda>ty sid. [])"
  by (simp add: demo_config_def)

lemma group_event_message: "SimpleMessage_init (group_event gid uid tome txt) (ev_time (group_event gid uid tome txt)) =
   Inr \<lparr>user_name = py ''Ann'', user_id = IntId uid, time = 1700000000, message = [Text txt]\<rparr>"
  by (simp add: SimpleMessage_init_def group_event_def repeats_mface_def)

lemmas ex_simps = demo_access demo_mention demo_no_mention demo_strip demo_not_command
  group_event_id group_event_kind stored_demo group_event_message

lemmas sched_simps = handle_all_message_def init_world_def get_session_def Session_init_def add_message_def  try_merge_message_def Let_def update_time_def is_pending_def create_task_def add_pending_def remove_pending_def set_pc_def cycle_exit_def
  timely_def before_deadline_def

section \<open>The pending flag\<close>

text \<open>
  Whenever a conversation's flag is set, one of its tasks is in flight: this holds at start
  and every step keeps it.
\<close>

lemma in_set_update_other:
  assumes "t \<in> set ts" "t \<noteq> ts ! tid"
  shows "t \<in> set (ts[tid := x])"
proof -
  from assms(1) obtain j where j: "j < length ts" "ts ! j = t"
    by (auto simp: in_set_conv_nth)
  with assms(2) have "j \<noteq> tid" by auto
  with j have "(ts[tid := x]) ! j = t" "j < length (ts[tid := x])" by simp_all
  then show ?thesis by (metis nth_mem)
qed

lemma covered_init: "pending_covered (init_world t0 reg)"
  by (simp add: pending_covered_def init_world_def)

lemma covered_msg: "pending_covered w \<Longrightarrow> pending_covered (handle_all_message cfg ev w)"
  unfolding pending_covered_def ham_pending ham_tasks by (simp split: if_splits)

lemma covered_clear: "pending_covered w \<Longrightarrow> pending_covered (handle_clear cfg ev w)"
  by (simp add: pending_covered_def)

lemma covered_resume:
  assumes inv: "pending_covered w"
    and tid: "tid < length (tasks w)"
    and st: "delayed_llm_query cfg tid (t_event (tasks w ! tid)) (t_pc (tasks w ! tid)) r w = Some w'"
  shows "pending_covered w'"
proof -
  define ts where "ts = tasks w"
  define t0 where "t0 = ts ! tid"
  define sid0 where "sid0 = event_session_id (t_event t0)"
  define p where "p = t_pc t0"
  define p' where "p' = t_pc (tasks w' ! tid)"
  define t1 where "t1 = t0\<lparr>t_pc := p'\<rparr>"
  have ts': "tasks w' = ts[tid := t1]"
    using dlq_tasks [OF st tid] by (simp add: ts_def t0_def t1_def p'_def)
  have pend: "pending_sessions w' =
     (if p = Created \<and> r = Proceed then insert sid0 (pending_sessions w)
      else if p' = Finished \<and> p \<noteq> Created then pending_sessions w - {sid0}
      else pending_sessions w)"
    using dlq_pending [OF st tid] by (simp add: ts_def t0_def p_def p'_def sid0_def)
  have nc: "p' \<noteq> Created" using dlq_not_created [OF st tid] by (simp add: p'_def)
  have start: "p = Created \<Longrightarrow> r = Proceed \<Longrightarrow> p' = AtSleep (clock w + 5)"
    using dlq_start [of cfg tid "t_event (tasks w ! tid)" r w w'] st tid
    by (simp add: ts_def t0_def p_def p'_def)
  have t1_in: "t1 \<in> set (tasks w')" using tid by (simp add: ts' ts_def set_update_memI)
  have t1_ev: "event_session_id (t_event t1) = sid0" by (simp add: t1_def sid0_def)
  have t1_pc: "t_pc t1 = p'" by (simp add: t1_def)
  have keep: "t \<in> set (tasks w')" if "t \<in> set ts" "t \<noteq> t0" for t
    using that by (simp add: ts' t0_def in_set_update_other)
  have old: "\<exists>t\<in>set ts. in_flight t \<and> event_session_id (t_event t) = sid"
    if "sid \<in> pending_sessions w" for sid
    using inv that by (simp add: pending_covered_def ts_def)
  show ?thesis
    unfolding pending_covered_def
  proof
    fix sid assume sid: "sid \<in> pending_sessions w'"
    show "\<exists>t\<in>set (tasks w'). in_flight t \<and> event_session_id (t_event t) = sid"
    proof (cases "p = Created \<and> r = Proceed")
      case True
      then have p': "p' = AtSleep (clock w + 5)" using start by simp
      show ?thesis
      proof (cases "sid = sid0")
        case True
        have "in_flight t1" using p' t1_pc by (simp add: in_flight_def)
        with t1_in t1_ev True show ?thesis by blast
      next
        case False
        with sid pend \<open>p = Created \<and> r = Proceed\<close> have "sid \<in> pending_sessions w" by simp
        from old [OF this] obtain t where t: "t \<in> set ts" "in_flight t"
          "event_session_id (t_event t) = sid" by blast
        with False have "t \<noteq> t0" by (auto simp: sid0_def)
        with t keep show ?thesis by blast
      qed
    next
      case False
      with sid pend have in_w: "sid \<in> pending_sessions w"
        and ne: "p' = Finished \<and> p \<noteq> Created \<longrightarrow> sid \<noteq> sid0"
        by (auto split: if_splits)
      from old [OF in_w] obtain t where t: "t \<in> set ts" "in_flight t"
        "event_session_id (t_event t) = sid" by blast
      show ?thesis
      proof (cases "t = t0")
        case False
        with t keep show ?thesis by blast
      next
        case True
        with t have fl: "p \<noteq> Created" and same: "sid0 = sid"
          by (auto simp: in_flight_def p_def sid0_def)
        with ne have "p' \<noteq> Finished" by auto
        with nc t1_pc have "in_flight t1" by (simp add: in_flight_def)
        with t1_in t1_ev same show ?thesis by blast
      qed
    qed
  qed
qed

lemma covered_step:
  assumes "pending_covered w" "step cfg l w = Some w'"
  shows "pending_covered w'"
proof (cases l)
  case (Msg ev)
  with assms show ?thesis using covered_msg [of w cfg ev] by simp
next
  case (Clear ev)
  with assms show ?thesis using covered_clear [of w cfg ev] by simp
next
  case (Elapse d)
  with assms have "w' = w\<lparr>clock := clock w + d\<rparr>" by (simp split: if_splits)
  with assms(1) show ?thesis by (simp add: pending_covered_def)
next
  case (Resume tid r)
  with assms(2) have "tid < length (tasks w)"
    and "delayed_llm_query cfg tid (t_event (tasks w ! tid)) (t_pc (tasks w ! tid)) r w = Some w'"
    by (simp_all split: if_splits)
  with assms(1) show ?thesis by (rule covered_resume)
qed

lemma covered_run:
  "pending_covered w \<Longrightarrow> run cfg ls w = Some w' \<Longrightarrow> pending_covered w'"
proof (induction ls arbitrary: w)
  case Nil
  then show ?case by simp
next
  case (Cons l ls)
  from Cons.prems(2) obtain w1 where w1: "step cfg l w = Some w1" "run cfg ls w1 = Some w'"
    by (simp split: option.splits)
  from covered_step [OF Cons.prems(1) w1(1)] w1(2) show ?case by (rule Cons.IH)
qed

lemma rest_not_pending:
  "pending_covered w \<Longrightarrow> at_rest sid w \<Longrightarrow> sid \<notin> pending_sessions w"
  by (auto simp: pending_covered_def at_rest_def list_ex_iff)
lemma exit_clears:
  assumes tid: "tid < length (tasks w1)"
    and fl: "in_flight (tasks w1 ! tid)"
    and st: "step cfg (Resume tid r) w1 = Some w2"
    and fin: "t_pc (tasks w2 ! tid) = Finished"
  shows "event_session_id (t_event (tasks w1 ! tid)) \<notin> pending_sessions w2"
proof -
  from st tid have d:
    "delayed_llm_query cfg tid (t_event (tasks w1 ! tid)) (t_pc (tasks w1 ! tid)) r w1 = Some w2"
    by simp
  from fl have "t_pc (tasks w1 ! tid) \<noteq> Created" by (simp add: in_flight_def)
  with dlq_pending [OF d tid] fin show ?thesis by simp
qed

lemma cancel_exits:
  assumes tid: "tid < length (tasks w1)" and fl: "in_flight (tasks w1 ! tid)"
  shows "\<exists>w2. step cfg (Resume tid Cancelled) w1 = Some w2 \<and> t_pc (tasks w2 ! tid) = Finished"
  using assms by (cases "t_pc (tasks w1 ! tid)") (simp_all add: in_flight_def)

lemma failed_query_exits:
  assumes tid: "tid < length (tasks w1)" and pc: "t_pc (tasks w1 ! tid) = AtQuery"
    and fail: "handle_llm_query outcome = []"
  shows "\<exists>w2. step cfg (Resume tid (QueryResult outcome)) w1 = Some w2
           \<and> t_pc (tasks w2 ! tid) = Finished"
  using assms by simp

lemma send_error_exits:
  assumes tid: "tid < length (tasks w1)" and pc: "t_pc (tasks w1 ! tid) = AtSend ms m rest"
  shows "\<exists>w2. step cfg (Resume tid SendError) w1 = Some w2 \<and> t_pc (tasks w2 ! tid) = Finished"
  using assms by simp

lemma last_send_exits:
  assumes tid: "tid < length (tasks w1)" and pc: "t_pc (tasks w1 ! tid) = AtSend ms m []"
  shows "\<exists>w2. step cfg (Resume tid (SendOk wall)) w1 = Some w2
           \<and> t_pc (tasks w2 ! tid) = Finished"
  using assms by (simp add: from_dict_def bot_message_dict_def)

text \<open>
  C5. Every way a started task returns clears \<^verbatim>\<open>pending\<close> for its conversation: the
  \<^verbatim>\<open>finally\<close> block runs on each of them. Cancellation at any \<^verbatim>\<open>await\<close>, a failed or
  empty query, an exception of \<^verbatim>\<open>matcher.send\<close> and the last successful send all make
  the task return. Hence, in every state the process can reach, a conversation with no
  task in flight is not pending.
\<close>

theorem every_exit_clears_pending:
  "(run cfg ls (init_world t0 reg) = Some w \<and> at_rest sid w \<longrightarrow> sid \<notin> pending_sessions w)
   \<and> (tid < length (tasks w1) \<and> in_flight (tasks w1 ! tid)
        \<and> step cfg (Resume tid r) w1 = Some w2 \<and> t_pc (tasks w2 ! tid) = Finished \<longrightarrow>
          event_session_id (t_event (tasks w1 ! tid)) \<notin> pending_sessions w2)
   \<and> (tid < length (tasks w1) \<and> in_flight (tasks w1 ! tid) \<longrightarrow>
        (\<exists>w2. step cfg (Resume tid Cancelled) w1 = Some w2 \<and> t_pc (tasks w2 ! tid) = Finished))
   \<and> (tid < length (tasks w1) \<and> t_pc (tasks w1 ! tid) = AtQuery
        \<and> handle_llm_query outcome = [] \<longrightarrow>
        (\<exists>w2. step cfg (Resume tid (QueryResult outcome)) w1 = Some w2
           \<and> t_pc (tasks w2 ! tid) = Finished))
   \<and> (tid < length (tasks w1) \<and> t_pc (tasks w1 ! tid) = AtSend ms m rest \<longrightarrow>
        (\<exists>w2. step cfg (Resume tid SendError) w1 = Some w2 \<and> t_pc (tasks w2 ! tid) = Finished))
   \<and> (tid < length (tasks w1) \<and> t_pc (tasks w1 ! tid) = AtSend ms m [] \<longrightarrow>
        (\<exists>w2. step cfg (Resume tid (SendOk wall)) w1 = Some w2
           \<and> t_pc (tasks w2 ! tid) = Finished))"
proof (intro conjI impI)
  assume "run cfg ls (init_world t0 reg) = Some w \<and> at_rest sid w"
  then show "sid \<notin> pending_sessions w"
    using covered_run [OF covered_init, of cfg ls t0 reg w] rest_not_pending by blast
next
  assume "tid < length (tasks w1) \<and> in_flight (tasks w1 ! tid)
        \<and> step cfg (Resume tid r) w1 = Some w2 \<and> t_pc (tasks w2 ! tid) = Finished"
  then show "event_session_id (t_event (tasks w1 ! tid)) \<notin> pending_sessions w2"
    using exit_clears [of tid w1 cfg r w2] by blast
next
  assume "tid < length (tasks w1) \<and> in_flight (tasks w1 ! tid)"
  then show "\<exists>w2. step cfg (Resume tid Cancelled) w1 = Some w2 \<and> t_pc (tasks w2 ! tid) = Finished"
    using cancel_exits [of tid w1 cfg] by blast
next
  assume "tid < length (tasks w1) \<and> t_pc (tasks w1 ! tid) = AtQuery
        \<and> handle_llm_query outcome = []"
  then show "\<exists>w2. step cfg (Resume tid (QueryResult outcome)) w1 = Some w2
           \<and> t_pc (tasks w2 ! tid) = Finished"
    using failed_query_exits [of tid w1 outcome cfg] by blast
next
  assume "tid < length (tasks w1) \<and> t_pc (tasks w1 ! tid) = AtSend ms m rest"
  then show "\<exists>w2. step cfg (Resume tid SendError) w1 = Some w2 \<and> t_pc (tasks w2 ! tid) = Finished"
    using send_error_exits [of tid w1 ms m rest cfg] by blast
next
  assume "tid < length (tasks w1) \<and> t_pc (tasks w1 ! tid) = AtSend ms m []"
  then show "\<exists>w2. step cfg (Resume tid (SendOk wall)) w1 = Some w2
           \<and> t_pc (tasks w2 ! tid) = Finished"
    using last_send_exits [of tid w1 ms m cfg wall] by blast
qed

theorem every_exit_clears_pending_witness:
  "(\<exists>w. run demo_config [Msg mention_event, Resume 0 Proceed, Resume 0 Cancelled]
          (init_world 0 Map.empty) = Some w
       \<and> at_rest 7 w \<and> 7 \<notin> pending_sessions w)
   \<and> (\<exists>w1 w2. run demo_config [Msg mention_event, Resume 0 Proceed] (init_world 0 Map.empty)
          = Some w1
        \<and> in_flight (tasks w1 ! 0) \<and> 7 \<in> pending_sessions w1
        \<and> step demo_config (Resume 0 Cancelled) w1 = Some w2
        \<and> t_pc (tasks w2 ! 0) = Finished \<and> 7 \<notin> pending_sessions w2)"
proof -
  have "\<exists>w. run demo_config [Msg mention_event, Resume 0 Proceed, Resume 0 Cancelled]
          (init_world 0 Map.empty) = Some w \<and> at_rest 7 w"
    unfolding mention_event_def
    by (simp add: ex_simps sched_simps at_rest_def in_flight_def)
  then obtain w where w: "run demo_config [Msg mention_event, Resume 0 Proceed, Resume 0 Cancelled]
          (init_world 0 Map.empty) = Some w" "at_rest 7 w"
    by blast
  with every_exit_clears_pending [of demo_config
      "[Msg mention_event, Resume 0 Proceed, Resume 0 Cancelled]" 0 Map.empty w 7]
  have first: "7 \<notin> pending_sessions w" by blast
  have "\<exists>w1. run demo_config [Msg mention_event, Resume 0 Proceed] (init_world 0 Map.empty)
          = Some w1
        \<and> length (tasks w1) = 1 \<and> in_flight (tasks w1 ! 0) \<and> 7 \<in> pending_sessions w1
        \<and> event_session_id (t_event (tasks w1 ! 0)) = 7"
    unfolding mention_event_def
    by (simp add: ex_simps sched_simps in_flight_def)
  then obtain w1 where w1: "run demo_config [Msg mention_event, Resume 0 Proceed]
          (init_world 0 Map.empty) = Some w1"
    "length (tasks w1) = 1" "in_flight (tasks w1 ! 0)" "7 \<in> pending_sessions w1"
    "event_session_id (t_event (tasks w1 ! 0)) = 7"
    by blast
  note T = every_exit_clears_pending [where cfg = demo_config and tid = 0 and ?w1.0 = w1
      and r = Cancelled]
  have pre: "0 < length (tasks w1) \<and> in_flight (tasks w1 ! 0)" using w1 by simp
  with T obtain w2 where w2: "step demo_config (Resume 0 Cancelled) w1 = Some w2"
    "t_pc (tasks w2 ! 0) = Finished"
    by blast
  have "event_session_id (t_event (tasks w1 ! 0)) \<notin> pending_sessions w2"
    using T [where ?w2.0 = w2] pre w2 by blast
  then have "7 \<notin> pending_sessions w2" using w1(5) by simp
  with w w1 w2 first show ?thesis by blast
qed

section \<open>Admission of cycles\<close>

text \<open>
  The gate of \<^verbatim>\<open>handle_all_message\<close>: while the conversation's flag is set, no task is
  created.
\<close>

lemma pending_gate:
  "is_pending (event_session_id ev) w \<Longrightarrow> tasks (handle_all_message cfg ev w) = tasks w"
  by (simp add: ham_tasks)

text \<open>
  C1. At most one cycle per conversation should be in flight. The gate reads
  \<^verbatim>\<open>is_pending\<close> in \<^verbatim>\<open>handle_all_message\<close>, but the flag is set by the first line of
  the created task, which runs only when the event loop reaches it. When two qualifying
  messages of conversation 7 are handled before the first task has run, the second still
  finds the flag unset and creates a second task: both tasks then start, poll, and reach
  the query for the same conversation.
\<close>

theorem double_admission:
  "\<exists>w. run demo_config
          [Msg mention_event, Msg mention_event, Resume 0 Proceed, Resume 1 Proceed,
           Elapse 5, Resume 0 Proceed, Resume 1 Proceed]
          (init_world 0 Map.empty) = Some w
       \<and> map (\<lambda>t. event_session_id (t_event t)) (tasks w) = [7, 7]
       \<and> map t_pc (tasks w) = [AtQuery, AtQuery]
       \<and> list_all in_flight (tasks w)"
  unfolding mention_event_def
  by (simp add: ex_simps sched_simps in_flight_def)

section \<open>Aborted cycles\<close>

lemma no_parts_iff:
  "handle_llm_query outcome = [] \<longleftrightarrow>
     outcome = Raised \<or> outcome = Returned None \<or>
     (\<exists>response. outcome = Returned (Some response)
        \<and> (\<forall>line \<in> set (split_on 10 response). strip line = []))"
proof (cases outcome)
  case Raised
  then show ?thesis by (simp add: handle_llm_query_def)
next
  case (Returned r)
  show ?thesis
  proof (cases r)
    case None
    with Returned show ?thesis by (simp add: handle_llm_query_def)
  next
    case (Some response)
    have "response = [] \<Longrightarrow> \<forall>line \<in> set (split_on 10 response). strip line = []"
      by (simp add: split_on_def strip_def)
    with Returned Some show ?thesis
      by (auto simp: handle_llm_query_def filter_empty_conv)
  qed
qed

lemma fire_keeps_log:
  assumes "tid < length (tasks w)" "t_pc (tasks w ! tid) = AtSleep d"
    "step cfg (Resume tid Proceed) w = Some w1"
  shows "sessions w1 = sessions w \<and> sent w1 = sent w"
  using assms by (auto split: if_splits)

lemma abort_keeps_log:
  assumes "tid < length (tasks w1)" "t_pc (tasks w1 ! tid) = AtQuery"
    "handle_llm_query outcome = []"
  shows "\<exists>w2. step cfg (Resume tid (QueryResult outcome)) w1 = Some w2
           \<and> sessions w2 = sessions w1 \<and> sent w2 = sent w1
           \<and> t_pc (tasks w2 ! tid) = Finished
           \<and> event_session_id (t_event (tasks w1 ! tid)) \<notin> pending_sessions w2"
  using assms by simp

lemma step_length:
  "step cfg (Resume tid r) w = Some w' \<Longrightarrow> length (tasks w') = length (tasks w)"
  using dlq_tasks [of cfg tid "t_event (tasks w ! tid)" "t_pc (tasks w ! tid)" r w w']
  by (auto split: if_splits) (metis length_list_update)

text \<open>
  C6. The query yields no parts exactly when it raised, returned \<^verbatim>\<open>None\<close>, or returned a
  string all of whose lines are blank (the empty string among them). A cycle that starts
  executing and gets such a result returns at once: over these two resumptions of the task
  nothing is sent and the registry of sessions, with every message log in it, is what it
  was when the execution began.
\<close>

theorem failed_query_leaves_log:
  "(handle_llm_query outcome = [] \<longleftrightarrow>
      outcome = Raised \<or> outcome = Returned None \<or>
      (\<exists>response. outcome = Returned (Some response)
         \<and> (\<forall>line \<in> set (split_on 10 response). strip line = [])))
   \<and> (tid < length (tasks w) \<and> t_pc (tasks w ! tid) = AtSleep d
        \<and> step cfg (Resume tid Proceed) w = Some w1 \<and> t_pc (tasks w1 ! tid) = AtQuery
        \<and> handle_llm_query outcome = [] \<longrightarrow>
        (\<exists>w2. step cfg (Resume tid (QueryResult outcome)) w1 = Some w2
           \<and> sessions w2 = sessions w \<and> sent w2 = sent w
           \<and> t_pc (tasks w2 ! tid) = Finished))"
proof (intro conjI impI)
  show "handle_llm_query outcome = [] \<longleftrightarrow>
      outcome = Raised \<or> outcome = Returned None \<or>
      (\<exists>response. outcome = Returned (Some response)
         \<and> (\<forall>line \<in> set (split_on 10 response). strip line = []))"
    by (rule no_parts_iff)
next
  assume a: "tid < length (tasks w) \<and> t_pc (tasks w ! tid) = AtSleep d
        \<and> step cfg (Resume tid Proceed) w = Some w1 \<and> t_pc (tasks w1 ! tid) = AtQuery
        \<and> handle_llm_query outcome = []"
  then have keep: "sessions w1 = sessions w \<and> sent w1 = sent w"
    using fire_keeps_log [of tid w d cfg w1] by blast
  from a have st: "step cfg (Resume tid Proceed) w = Some w1" and tid: "tid < length (tasks w)"
    by blast+
  have len: "tid < length (tasks w1)" using step_length [OF st] tid by simp
  from abort_keeps_log [OF len, of outcome cfg] a obtain w2 where
    "step cfg (Resume tid (QueryResult outcome)) w1 = Some w2"
    "sessions w2 = sessions w1" "sent w2 = sent w1" "t_pc (tasks w2 ! tid) = Finished"
    by blast
  with keep show "\<exists>w2. step cfg (Resume tid (QueryResult outcome)) w1 = Some w2
           \<and> sessions w2 = sessions w \<and> sent w2 = sent w
           \<and> t_pc (tasks w2 ! tid) = Finished"
    by simp
qed

theorem failed_query_leaves_log_witness:
  "\<exists>w w1 w2.
      run demo_config [Msg mention_event, Resume 0 Proceed, Elapse 5] (init_world 0 Map.empty)
        = Some w
    \<and> step demo_config (Resume 0 Proceed) w = Some w1
    \<and> handle_llm_query (Returned (Some (py '' \<newline>  ''))) = []
    \<and> step demo_config (Resume 0 (QueryResult (Returned (Some (py '' \<newline>  ''))))) w1 = Some w2
    \<and> sessions w2 = sessions w \<and> sent w2 = sent w \<and> t_pc (tasks w2 ! 0) = Finished"
proof -
  have "\<exists>w. run demo_config [Msg mention_event, Resume 0 Proceed, Elapse 5]
          (init_world 0 Map.empty) = Some w
        \<and> length (tasks w) = 1 \<and> t_pc (tasks w ! 0) = AtSleep 5 \<and> clock w = 5
        \<and> last_message_time w (event_session_id (t_event (tasks w ! 0))) = 0"
    unfolding mention_event_def
    by (simp add: ex_simps sched_simps)
  then obtain w where w: "run demo_config [Msg mention_event, Resume 0 Proceed, Elapse 5]
          (init_world 0 Map.empty) = Some w"
    "length (tasks w) = 1" "t_pc (tasks w ! 0) = AtSleep 5" "clock w = 5"
    "last_message_time w (event_session_id (t_event (tasks w ! 0))) = 0"
    by blast
  define w1 where "w1 = set_pc 0 AtQuery w"
  have s1: "step demo_config (Resume 0 Proceed) w = Some w1"
    using w by (simp add: w1_def)
  have p1: "t_pc (tasks w1 ! 0) = AtQuery" using w by (simp add: w1_def)
  have blank: "handle_llm_query (Returned (Some (py '' \<newline>  ''))) = []"
    by (simp add: handle_llm_query_def split_on_def strip_def isspace_def py_def)
  from failed_query_leaves_log [of "Returned (Some (py '' \<newline>  ''))" 0 w 5 demo_config w1]
    w s1 p1 blank
  obtain w2 where "step demo_config (Resume 0 (QueryResult (Returned (Some (py '' \<newline>  ''))))) w1
      = Some w2" "sessions w2 = sessions w" "sent w2 = sent w" "t_pc (tasks w2 ! 0) = Finished"
    by auto
  with w(1) s1 blank show ?thesis by blast
qed

section \<open>Delivery of the reply\<close>

lemma parts_eq:
  "handle_llm_query (Returned (Some response)) =
     map strip (filter (\<lambda>line. strip line \<noteq> []) (split_on 10 response))"
  by (simp add: handle_llm_query_def split_on_def strip_def)

lemma parts_nonempty: "part \<in> set (handle_llm_query outcome) \<Longrightarrow> part \<noteq> []"
  by (cases outcome) (auto simp: handle_llm_query_def split: option.splits if_splits)

lemma delay_clamp:
  "0.75 \<le> delay msg \<and> delay msg \<le> 1.5
   \<and> delay msg =
       (if real (length msg) / 60 < 0.75 then 0.75
        else if 1.5 < real (length msg) / 60 then 1.5
        else real (length msg) / 60)"
  by (simp add: delay_def max_def min_def)

lemma send_last:
  assumes "tid < length (tasks w)" "t_pc (tasks w ! tid) = AtSend msgs msg []"
  shows "\<exists>w'. step cfg (Resume tid (SendOk wall)) w = Some w'
           \<and> sent w' = sent w @ [(tid, msg)] \<and> clock w' = clock w
           \<and> t_pc (tasks w' ! tid) = Finished"
  using assms by (simp add: from_dict_def bot_message_dict_def)

lemma send_next:
  assumes "tid < length (tasks w)" "t_pc (tasks w ! tid) = AtSend msgs msg (nxt # rest)"
  shows "\<exists>w'. step cfg (Resume tid (SendOk wall)) w = Some w'
           \<and> sent w' = sent w @ [(tid, msg)] \<and> clock w' = clock w
           \<and> length (tasks w') = length (tasks w)
           \<and> t_pc (tasks w' ! tid) = AtDelay (clock w + delay nxt) msgs nxt rest"
  using assms by simp

lemma delay_over:
  assumes "tid < length (tasks w)" "t_pc (tasks w ! tid) = AtDelay deadline msgs msg rest"
    "deadline \<le> clock w"
  shows "\<exists>w'. step cfg (Resume tid Proceed) w = Some w'
           \<and> sent w' = sent w \<and> clock w' = clock w
           \<and> length (tasks w') = length (tasks w)
           \<and> t_pc (tasks w' ! tid) = AtSend msgs msg rest"
  using assms by simp

lemma delay_not_over:
  assumes "tid < length (tasks w)" "t_pc (tasks w ! tid) = AtDelay deadline msgs msg rest"
    "clock w < deadline"
  shows "step cfg (Resume tid Proceed) w = None"
  using assms by simp

lemma delay_nonneg: "0 \<le> delay msg"
  by (simp add: delay_def le_max_iff_disj)

lemma deliver_all:
  assumes "tid < length (tasks w)" "t_pc (tasks w ! tid) = AtSend msgs msg rest"
  shows "\<exists>w'. run cfg (Resume tid (SendOk wall) # send_rest tid wall rest) w = Some w'
           \<and> sent w' = sent w @ map (Pair tid) (msg # rest)
           \<and> clock w' = clock w + sum_list (map delay rest)
           \<and> t_pc (tasks w' ! tid) = Finished"
  using assms
proof (induction rest arbitrary: w msg)
  case Nil
  from send_last [OF Nil.prems, of cfg wall] obtain w' where
    "step cfg (Resume tid (SendOk wall)) w = Some w'" "sent w' = sent w @ [(tid, msg)]"
    "clock w' = clock w" "t_pc (tasks w' ! tid) = Finished"
    by blast
  then have "run cfg (Resume tid (SendOk wall) # send_rest tid wall []) w = Some w'
           \<and> sent w' = sent w @ map (Pair tid) [msg]
           \<and> clock w' = clock w + sum_list (map delay [])
           \<and> t_pc (tasks w' ! tid) = Finished"
    by (simp add: send_rest_def del: step.simps)
  then show ?case by blast
next
  case (Cons nxt rest)
  from send_next [OF Cons.prems, of cfg wall] obtain w1 where w1:
    "step cfg (Resume tid (SendOk wall)) w = Some w1"
    "sent w1 = sent w @ [(tid, msg)]" "clock w1 = clock w"
    "length (tasks w1) = length (tasks w)"
    "t_pc (tasks w1 ! tid) = AtDelay (clock w + delay nxt) msgs nxt rest"
    by blast
  define w2 where "w2 = w1\<lparr>clock := clock w1 + delay nxt\<rparr>"
  have s2: "step cfg (Elapse (delay nxt)) w1 = Some w2"
    using delay_nonneg [of nxt] by (simp add: w2_def)
  have w2: "tid < length (tasks w2)"
    "t_pc (tasks w2 ! tid) = AtDelay (clock w + delay nxt) msgs nxt rest"
    "clock w + delay nxt \<le> clock w2" "sent w2 = sent w1" "clock w2 = clock w + delay nxt"
    using w1 Cons.prems(1) by (simp_all add: w2_def)
  from delay_over [OF w2(1,2,3), of cfg] obtain w3 where w3:
    "step cfg (Resume tid Proceed) w2 = Some w3" "sent w3 = sent w2" "clock w3 = clock w2"
    "length (tasks w3) = length (tasks w2)" "t_pc (tasks w3 ! tid) = AtSend msgs nxt rest"
    by blast
  from w3 w2 have "tid < length (tasks w3)" by simp
  from Cons.IH [OF this w3(5)] obtain w' where w':
    "run cfg (Resume tid (SendOk wall) # send_rest tid wall rest) w3 = Some w'"
    "sent w' = sent w3 @ map (Pair tid) (nxt # rest)"
    "clock w' = clock w3 + sum_list (map delay rest)"
    "t_pc (tasks w' ! tid) = Finished"
    by blast
  have "send_rest tid wall (nxt # rest) =
          Elapse (delay nxt) # Resume tid Proceed # Resume tid (SendOk wall) # send_rest tid wall rest"
    by (simp add: send_rest_def)
  then have "run cfg (Resume tid (SendOk wall) # send_rest tid wall (nxt # rest)) w = Some w'"
    using w1(1) s2 w3(1) w'(1) by simp
  moreover have "sent w' = sent w @ map (Pair tid) (msg # nxt # rest)"
    using w' w3 w2 w1 by simp
  moreover have "clock w' = clock w + sum_list (map delay (nxt # rest))"
    using w' w3 w2 by simp
  ultimately show ?case using w'(4) by blast
qed

text \<open>
  What splitting and stripping do, stated without their definitions: the pieces of a split
  are free of the separator and join back to the text, and \<open>strip\<close> takes away a prefix
  and a suffix of white space and leaves no white space at either end.
\<close>

lemma split_where_nonempty: "split_where p s \<noteq> []"
  by (induction s) (auto split: list.splits)

lemma join_Cons_Cons: "join sep ((c # piece) # pieces) = c # join sep (piece # pieces)"
  by (cases pieces) simp_all

lemma join_Nil_Cons: "pieces \<noteq> [] \<Longrightarrow> join sep ([] # pieces) = sep # join sep pieces"
  by (cases pieces) simp_all

lemma join_split_where: "join sep (split_where (\<lambda>c. c = sep) s) = s"
proof (induction s)
  case Nil
  show ?case by simp
next
  case (Cons c cs)
  show ?case
  proof (cases "c = sep")
    case True
    with Cons show ?thesis by (simp add: join_Nil_Cons split_where_nonempty)
  next
    case False
    obtain piece pieces where sp: "split_where (\<lambda>c. c = sep) cs = piece # pieces"
      using split_where_nonempty [of "\<lambda>c. c = sep" cs] by (cases "split_where (\<lambda>c. c = sep) cs") auto
    with Cons False show ?thesis by (simp add: join_Cons_Cons)
  qed
qed

lemma split_where_free: "piece \<in> set (split_where p s) \<Longrightarrow> c \<in> set piece \<Longrightarrow> \<not> p c"
proof (induction s arbitrary: piece)
  case Nil
  then show ?case by simp
next
  case (Cons a s)
  show ?case
  proof (cases "p a")
    case True
    with Cons.prems Cons.IH show ?thesis by auto
  next
    case False
    obtain q qs where sp: "split_where p s = q # qs"
      using split_where_nonempty [of p s] by (cases "split_where p s") auto
    with Cons.prems False have "piece = a # q \<or> piece \<in> set qs" by simp
    then show ?thesis
    proof
      assume "piece = a # q"
      with Cons.prems(2) have "c = a \<or> c \<in> set q" by simp
      with False Cons.IH [of q] sp show ?thesis by auto
    next
      assume "piece \<in> set qs"
      with Cons.IH [of piece] sp Cons.prems(2) show ?thesis by simp
    qed
  qed
qed

lemma lines_of_response:
  "split_on 10 response \<noteq> []
   \<and> join 10 (split_on 10 response) = response
   \<and> (\<forall>line \<in> set (split_on 10 response). 10 \<notin> set line)"
  using split_where_free [of _ "\<lambda>c. c = 10" response 10]
  by (auto simp: split_on_def split_where_nonempty join_split_where)

lemma last_dropWhile: "dropWhile P xs \<noteq> [] \<Longrightarrow> last (dropWhile P xs) = last xs"
  by (induction xs) (auto split: if_splits)

lemma strip_frame:
  "\<exists>pre post. s = pre @ strip s @ post \<and> list_all isspace pre \<and> list_all isspace post"
proof -
  define rest where "rest = dropWhile isspace s"
  have 1: "s = takeWhile isspace s @ rest" by (simp add: rest_def)
  have "rev (rev rest) = rev (takeWhile isspace (rev rest) @ dropWhile isspace (rev rest))"
    by (simp only: takeWhile_dropWhile_id)
  then have "rest = rev (dropWhile isspace (rev rest)) @ rev (takeWhile isspace (rev rest))"
    by (simp only: rev_rev_ident rev_append)
  then have 2: "rest = strip s @ rev (takeWhile isspace (rev rest))"
    unfolding strip_def rest_def .
  have 3: "list_all isspace (takeWhile isspace s)"
    "list_all isspace (rev (takeWhile isspace (rev rest)))"
    by (auto simp: list_all_iff dest: set_takeWhileD)
  from 1 2 have "s = takeWhile isspace s @ strip s @ rev (takeWhile isspace (rev rest))" by simp
  with 3 show ?thesis by blast
qed

lemma strip_ends:
  assumes "strip s \<noteq> []"
  shows "\<not> isspace (hd (strip s)) \<and> \<not> isspace (last (strip s))"
proof -
  define rest where "rest = dropWhile isspace s"
  define core where "core = dropWhile isspace (rev rest)"
  have st: "strip s = rev core" by (simp add: strip_def rest_def core_def)
  with assms have ne: "core \<noteq> []" by simp
  then have rne: "rest \<noteq> []" by (auto simp: core_def)
  have "\<not> isspace (hd core)" using ne hd_dropWhile [of isspace "rev rest"] by (simp add: core_def)
  then have l: "\<not> isspace (last (strip s))" using ne by (simp add: st last_rev)
  have "last core = last (rev rest)" using ne last_dropWhile [of isspace "rev rest"]
    by (simp add: core_def)
  also have "\<dots> = hd rest" using rne by (simp add: last_rev)
  finally have "hd (strip s) = hd rest" using ne by (simp add: st hd_rev)
  moreover have "\<not> isspace (hd rest)" using rne hd_dropWhile [of isspace s] by (simp add: rest_def)
  ultimately show ?thesis using l by simp
qed

lemma strip_blank: "strip s = [] \<longleftrightarrow> list_all isspace s"
proof
  assume e: "strip s = []"
  obtain pre post where f: "s = pre @ strip s @ post" "list_all isspace pre" "list_all isspace post"
    using strip_frame [of s] by blast
  from f(1) e have "s = pre @ post" by simp
  then have "list_all isspace s = list_all isspace (pre @ post)" by (rule arg_cong)
  with f(2,3) show "list_all isspace s" by simp
next
  assume a: "list_all isspace s"
  then have d: "dropWhile isspace s = []" by (simp add: list_all_iff)
  show "strip s = []" unfolding strip_def d by simp
qed

lemma strip_fixed:
  assumes "t \<noteq> []" "\<not> isspace (hd t)" "\<not> isspace (last t)"
  shows "strip t = t"
proof -
  have "dropWhile isspace t = t" using assms(1,2) by (cases t) auto
  moreover have "dropWhile isspace (rev t) = rev t"
    using assms(1,3) by (cases "rev t") (auto simp: last_rev [symmetric] hd_rev)
  ultimately show ?thesis by (simp add: strip_def)
qed

lemma set_strip: "set (strip s) \<subseteq> set s"
  by (auto simp: strip_def dest!: set_dropWhileD)

lemma part_shape:
  assumes "part \<in> set (handle_llm_query outcome)"
  shows "part \<noteq> [] \<and> 10 \<notin> set part \<and> \<not> isspace (hd part) \<and> \<not> isspace (last part)
       \<and> strip part = part"
proof -
  from assms obtain response line where o: "outcome = Returned (Some response)"
    and l: "line \<in> set (split_on 10 response)" "strip line \<noteq> []" "part = strip line"
    by (cases outcome) (auto simp: handle_llm_query_def split: option.splits if_splits)
  from l(1) lines_of_response [of response] have "10 \<notin> set line" by blast
  with set_strip [of line] l(3) have "10 \<notin> set part" by auto
  moreover from strip_ends [OF l(2)] l(3) have e: "\<not> isspace (hd part)" "\<not> isspace (last part)"
    by simp_all
  moreover from l have ne: "part \<noteq> []" by simp
  moreover from strip_fixed [OF ne e] have "strip part = part" .
  ultimately show ?thesis by simp
qed

lemma conj_tail9:
  "A1 \<and> A2 \<and> A3 \<and> A4 \<and> A5 \<and> A6 \<and> A7 \<and> A8 \<and> A9 \<and> B \<Longrightarrow> B"
  by blast

text \<open>
  C7. The response is cut at every line break: the lines contain no line break, and joined
  with line breaks they are the response. Stripping a line removes white space at its two
  ends and nothing else: the result starts and ends with a character that is not white
  space, or is empty, which happens exactly when the line is all white space. The parts of
  a reply are the lines that are not all white space, stripped, in their order; so no part
  is empty, contains a line break or has white space at an end. The delay before a part is
  its length divided by 60, kept between 0.75 and 1.5 seconds. When the query returns
  parts, the first is sent with no sleep before it, and each following one is sent after
  its own delay has passed, in order, the task returning after the last: the texts sent
  are the parts in order, and the time spent is the sum of the delays. A part's sleep does
  not end before its deadline, the deadline being set from the part's delay when the
  previous send completes. A query without parts sends nothing.
\<close>

theorem delivery_in_order:
  "handle_llm_query (Returned (Some response)) =
     map strip (filter (\<lambda>line. strip line \<noteq> []) (split_on 10 response))
   \<and> (\<forall>part \<in> set (handle_llm_query outcome). part \<noteq> [])
   \<and> 0.75 \<le> delay msg \<and> delay msg \<le> 1.5
   \<and> delay msg =
       (if real (length msg) / 60 < 0.75 then 0.75
        else if 1.5 < real (length msg) / 60 then 1.5
        else real (length msg) / 60)
   \<and> (tid < length (tasks w) \<and> t_pc (tasks w ! tid) = AtQuery
        \<and> handle_llm_query outcome = first_msg # rest \<longrightarrow>
        (\<exists>w'. run cfg (Resume tid (QueryResult outcome) # Resume tid (SendOk wall)
                        # send_rest tid wall rest) w = Some w'
           \<and> sent w' = sent w @ map (Pair tid) (first_msg # rest)
           \<and> clock w' = clock w + sum_list (map delay rest)
           \<and> t_pc (tasks w' ! tid) = Finished))
   \<and> (tid < length (tasks w) \<and> t_pc (tasks w ! tid) = AtDelay deadline msgs msg rest
        \<and> clock w < deadline \<longrightarrow> step cfg (Resume tid Proceed) w = None)
   \<and> (tid < length (tasks w) \<and> t_pc (tasks w ! tid) = AtSend msgs part (msg # rest) \<longrightarrow>
        (\<exists>w'. step cfg (Resume tid (SendOk wall)) w = Some w'
           \<and> t_pc (tasks w' ! tid) = AtDelay (clock w + delay msg) msgs msg rest))
   \<and> (tid < length (tasks w) \<and> t_pc (tasks w ! tid) = AtQuery
        \<and> handle_llm_query outcome = [] \<longrightarrow>
        (\<exists>w'. step cfg (Resume tid (QueryResult outcome)) w = Some w'
           \<and> sent w' = sent w \<and> t_pc (tasks w' ! tid) = Finished))
   \<and> split_on 10 response \<noteq> []
   \<and> join 10 (split_on 10 response) = response
   \<and> (\<forall>line \<in> set (split_on 10 response). 10 \<notin> set line)
   \<and> (\<exists>pre post. line = pre @ strip line @ post
          \<and> list_all isspace pre \<and> list_all isspace post)
   \<and> (strip line = [] \<longleftrightarrow> list_all isspace line)
   \<and> (strip line \<noteq> [] \<longrightarrow>
        \<not> isspace (hd (strip line)) \<and> \<not> isspace (last (strip line)))
   \<and> handle_llm_query (Returned (Some response)) =
       map strip (filter (\<lambda>line. \<not> list_all isspace line) (split_on 10 response))
   \<and> (\<forall>part \<in> set (handle_llm_query outcome).
        10 \<notin> set part \<and> \<not> isspace (hd part) \<and> \<not> isspace (last part)
        \<and> strip part = part)"
proof (intro conjI impI ballI)
  show "handle_llm_query (Returned (Some response)) =
     map strip (filter (\<lambda>line. strip line \<noteq> []) (split_on 10 response))"
    by (rule parts_eq)
next
  fix part assume "part \<in> set (handle_llm_query outcome)"
  then show "part \<noteq> []" by (rule parts_nonempty)
next
  show "0.75 \<le> delay msg" "delay msg \<le> 1.5"
    "delay msg =
       (if real (length msg) / 60 < 0.75 then 0.75
        else if 1.5 < real (length msg) / 60 then 1.5
        else real (length msg) / 60)"
    using delay_clamp [of msg] by blast+
next
  assume a: "tid < length (tasks w) \<and> t_pc (tasks w ! tid) = AtQuery
        \<and> handle_llm_query outcome = first_msg # rest"
  define w1 where "w1 = set_pc tid (AtSend (first_msg # rest) first_msg rest) w"
  from a have s1: "step cfg (Resume tid (QueryResult outcome)) w = Some w1"
    by (simp add: w1_def)
  from a have w1: "tid < length (tasks w1)"
    "t_pc (tasks w1 ! tid) = AtSend (first_msg # rest) first_msg rest"
    "sent w1 = sent w" "clock w1 = clock w"
    by (simp_all add: w1_def)
  from deliver_all [OF w1(1,2), of cfg wall] obtain w' where
    "run cfg (Resume tid (SendOk wall) # send_rest tid wall rest) w1 = Some w'"
    "sent w' = sent w1 @ map (Pair tid) (first_msg # rest)"
    "clock w' = clock w1 + sum_list (map delay rest)"
    "t_pc (tasks w' ! tid) = Finished"
    by blast
  with s1 w1(3,4) have "run cfg (Resume tid (QueryResult outcome) # Resume tid (SendOk wall)
                        # send_rest tid wall rest) w = Some w'
           \<and> sent w' = sent w @ map (Pair tid) (first_msg # rest)
           \<and> clock w' = clock w + sum_list (map delay rest)
           \<and> t_pc (tasks w' ! tid) = Finished"
    by (simp del: step.simps)
  then show "\<exists>w'. run cfg (Resume tid (QueryResult outcome) # Resume tid (SendOk wall)
                        # send_rest tid wall rest) w = Some w'
           \<and> sent w' = sent w @ map (Pair tid) (first_msg # rest)
           \<and> clock w' = clock w + sum_list (map delay rest)
           \<and> t_pc (tasks w' ! tid) = Finished"
    by blast
next
  assume "tid < length (tasks w) \<and> t_pc (tasks w ! tid) = AtDelay deadline msgs msg rest
        \<and> clock w < deadline"
  then show "step cfg (Resume tid Proceed) w = None"
    using delay_not_over [of tid w deadline msgs msg rest cfg] by blast
next
  assume "tid < length (tasks w) \<and> t_pc (tasks w ! tid) = AtSend msgs part (msg # rest)"
  then show "\<exists>w'. step cfg (Resume tid (SendOk wall)) w = Some w'
           \<and> t_pc (tasks w' ! tid) = AtDelay (clock w + delay msg) msgs msg rest"
    using send_next [of tid w msgs part msg rest cfg wall] by blast
next
  assume "tid < length (tasks w) \<and> t_pc (tasks w ! tid) = AtQuery
        \<and> handle_llm_query outcome = []"
  then show "\<exists>w'. step cfg (Resume tid (QueryResult outcome)) w = Some w'
           \<and> sent w' = sent w \<and> t_pc (tasks w' ! tid) = Finished"
    by simp
next
  show "split_on 10 response \<noteq> []" "join 10 (split_on 10 response) = response"
    using lines_of_response [of response] by blast+
next
  fix l assume "l \<in> set (split_on 10 response)"
  then show "10 \<notin> set l" using lines_of_response [of response] by blast
next
  show "\<exists>pre post. line = pre @ strip line @ post
          \<and> list_all isspace pre \<and> list_all isspace post"
    by (rule strip_frame)
next
  show "strip line = [] \<longleftrightarrow> list_all isspace line" by (rule strip_blank)
next
  assume "strip line \<noteq> []"
  then show "\<not> isspace (hd (strip line))" "\<not> isspace (last (strip line))"
    using strip_ends [of line] by blast+
next
  show "handle_llm_query (Returned (Some response)) =
       map strip (filter (\<lambda>line. \<not> list_all isspace line) (split_on 10 response))"
    by (simp only: parts_eq strip_blank)
next
  fix part assume "part \<in> set (handle_llm_query outcome)"
  then show "10 \<notin> set part" "\<not> isspace (hd part)" "\<not> isspace (last part)"
    "strip part = part"
    using part_shape [of part outcome] by blast+
qed

theorem delivery_in_order_witness:
  "handle_llm_query (Returned (Some (py ''\<newline>ok\<newline>''))) = [py ''ok'']
   \<and> delay (replicate 90 97) = 1.5
   \<and> handle_llm_query (Returned (Some (py ''hi\<newline>'' @ replicate 90 97)))
       = [py ''hi'', replicate 90 97]
   \<and> (\<exists>w w'.
        run demo_config [Msg mention_event, Resume 0 Proceed, Elapse 5, Resume 0 Proceed]
          (init_world 0 Map.empty) = Some w
      \<and> run demo_config
          [Resume 0 (QueryResult (Returned (Some (py ''hi\<newline>'' @ replicate 90 97)))),
           Resume 0 (SendOk 1700000009),
           Elapse 1.5, Resume 0 Proceed, Resume 0 (SendOk 1700000009)] w = Some w'
      \<and> sent w' = [(0, py ''hi''), (0, replicate 90 97)]
      \<and> clock w' = 6.5 \<and> t_pc (tasks w' ! 0) = Finished)
   \<and> split_on 10 (py ''a\<newline>   \<newline> b '') = [py ''a'', py ''   '', py '' b '']
   \<and> join 10 [py ''a'', py ''   '', py '' b ''] = py ''a\<newline>   \<newline> b ''
   \<and> 10 \<notin> set (py '' b '')
   \<and> strip (py ''   '') = []
   \<and> strip (py '' b '') = py ''b''
   \<and> \<not> isspace (hd (strip (py '' b ''))) \<and> \<not> isspace (last (strip (py '' b '')))
   \<and> handle_llm_query (Returned (Some (py ''a\<newline>   \<newline> b ''))) = [py ''a'', py ''b'']
   \<and> strip (py ''b'') = py ''b''"
proof -
  let ?r = "py ''hi\<newline>'' @ replicate 90 97"
  let ?o = "Returned (Some ?r)"
  have ok: "handle_llm_query (Returned (Some (py ''\<newline>ok\<newline>''))) = [py ''ok'']"
    using delivery_in_order [THEN conjunct1, of "py ''\<newline>ok\<newline>''"]
    by (simp add: split_on_def strip_def isspace_def py_def)
  have d: "delay (replicate 90 97) = 1.5"
    using delivery_in_order [where msg = "replicate 90 97", THEN conjunct2, THEN conjunct2,
        THEN conjunct2, THEN conjunct2, THEN conjunct1]
    by simp
  have sp: "split_on 10 ?r = [py ''hi'', replicate 90 97]"
  proof -
    have "split_where (\<lambda>c. c = 10) (replicate n 97) = [replicate n 97]" for n
      by (induction n) simp_all
    then show ?thesis by (simp add: split_on_def py_def)
  qed
  have st: "strip (replicate 90 97) = replicate 90 97" "strip (py ''hi'') = py ''hi''"
    by (simp_all add: strip_def isspace_def dropWhile_eq_self_iff py_def)
  have ne: "replicate 90 (97::nat) \<noteq> []" "py ''hi'' \<noteq> []"
    by (simp_all add: py_def)
  have parts: "handle_llm_query ?o = [py ''hi'', replicate 90 97]"
    using delivery_in_order [THEN conjunct1, of ?r]
    by (simp only: sp st ne filter.simps list.map if_True not_False_eq_True)
  have "\<exists>w. run demo_config [Msg mention_event, Resume 0 Proceed, Elapse 5, Resume 0 Proceed]
          (init_world 0 Map.empty) = Some w
        \<and> length (tasks w) = 1 \<and> t_pc (tasks w ! 0) = AtQuery \<and> clock w = 5 \<and> sent w = []"
    unfolding mention_event_def
    by (simp add: ex_simps sched_simps)
  then obtain w where w:
    "run demo_config [Msg mention_event, Resume 0 Proceed, Elapse 5, Resume 0 Proceed]
          (init_world 0 Map.empty) = Some w"
    "length (tasks w) = 1" "t_pc (tasks w ! 0) = AtQuery" "clock w = 5" "sent w = []"
    by blast
  have pre: "0 < length (tasks w) \<and> t_pc (tasks w ! 0) = AtQuery
        \<and> handle_llm_query ?o = py ''hi'' # [replicate 90 97]"
    using w parts by simp
  note F = delivery_in_order [where tid = 0 and w = w and outcome = ?o
      and first_msg = "py ''hi''" and rest = "[replicate 90 97]" and cfg = demo_config
      and wall = 1700000009, THEN conjunct2, THEN conjunct2, THEN conjunct2, THEN conjunct2,
      THEN conjunct2, THEN conjunct1]
  from F pre obtain w' where w':
    "run demo_config (Resume 0 (QueryResult ?o) # Resume 0 (SendOk 1700000009)
        # send_rest 0 1700000009 [replicate 90 97]) w = Some w'"
    "sent w' = sent w @ map (Pair 0) [py ''hi'', replicate 90 97]"
    "clock w' = clock w + sum_list (map delay [replicate 90 97])"
    "t_pc (tasks w' ! 0) = Finished"
    by blast
  have sr: "send_rest 0 1700000009 [replicate 90 97] =
          [Elapse 1.5, Resume 0 Proceed, Resume 0 (SendOk 1700000009)]"
    by (simp add: send_rest_def d)
  have r: "run demo_config
          [Resume 0 (QueryResult ?o), Resume 0 (SendOk 1700000009),
           Elapse 1.5, Resume 0 Proceed, Resume 0 (SendOk 1700000009)] w = Some w'"
    using w'(1) by (simp only: sr)
  have s: "sent w' = [(0, py ''hi''), (0, replicate 90 97)]"
    using w'(2) w(5) by simp
  have c: "clock w' = 6.5" using w'(3) w(4) d by simp
  let ?q = "py ''a\<newline>   \<newline> b ''"
  have sq: "split_on 10 ?q = [py ''a'', py ''   '', py '' b '']"
    by (simp add: split_on_def py_def)
  have jq: "join 10 [py ''a'', py ''   '', py '' b ''] = ?q"
    using delivery_in_order [where response = ?q and outcome = "Returned (Some ?q)",
      THEN conj_tail9, THEN conjunct2, THEN conjunct1] by (simp only: sq)
  have "py '' b '' \<in> set (split_on 10 ?q)" by (simp only: sq) simp
  with delivery_in_order [where response = ?q and outcome = "Returned (Some ?q)",
      THEN conj_tail9, THEN conjunct2, THEN conjunct2, THEN conjunct1]
  have nl: "10 \<notin> set (py '' b '')" by blast
  have "list_all isspace (py ''   '')" by (simp add: py_def isspace_def)
  with delivery_in_order [where line = "py ''   ''", THEN conj_tail9, THEN conjunct2,
      THEN conjunct2, THEN conjunct2, THEN conjunct2, THEN conjunct1]
  have blank: "strip (py ''   '') = []" by blast
  have sb: "strip (py '' b '') = py ''b''" "strip (py ''a'') = py ''a''"
    by (simp_all add: strip_def isspace_def py_def)
  have "strip (py '' b '') \<noteq> []" unfolding sb(1) by (simp add: py_def)
  with delivery_in_order [where line = "py '' b ''", THEN conj_tail9, THEN conjunct2,
      THEN conjunct2, THEN conjunct2, THEN conjunct2, THEN conjunct2, THEN conjunct1]
  have ends: "\<not> isspace (hd (strip (py '' b ''))) \<and> \<not> isspace (last (strip (py '' b '')))"
    by blast
  have bl: "\<not> list_all isspace (py ''a'')" "list_all isspace (py ''   '')"
    "\<not> list_all isspace (py '' b '')"
    by (simp_all add: py_def isspace_def)
  have pq: "handle_llm_query (Returned (Some ?q)) = [py ''a'', py ''b'']"
    using delivery_in_order [where response = ?q and outcome = "Returned (Some ?q)",
        THEN conj_tail9, THEN conjunct2, THEN conjunct2, THEN conjunct2, THEN conjunct2,
        THEN conjunct2, THEN conjunct2, THEN conjunct1]
    by (simp only: sq sb bl filter.simps list.map if_True if_False not_False_eq_True
        not_True_eq_False)
  have "py ''b'' \<in> set (handle_llm_query (Returned (Some ?q)))" by (simp only: pq) simp
  with delivery_in_order [where response = ?q and outcome = "Returned (Some ?q)",
      THEN conj_tail9, THEN conjunct2, THEN conjunct2, THEN conjunct2, THEN conjunct2,
      THEN conjunct2, THEN conjunct2, THEN conjunct2]
  have fx: "strip (py ''b'') = py ''b''" by blast
  have "\<exists>w w'.
        run demo_config [Msg mention_event, Resume 0 Proceed, Elapse 5, Resume 0 Proceed]
          (init_world 0 Map.empty) = Some w
      \<and> run demo_config
          [Resume 0 (QueryResult (Returned (Some (py ''hi\<newline>'' @ replicate 90 97)))),
           Resume 0 (SendOk 1700000009),
           Elapse 1.5, Resume 0 Proceed, Resume 0 (SendOk 1700000009)] w = Some w'
      \<and> sent w' = [(0, py ''hi''), (0, replicate 90 97)]
      \<and> clock w' = 6.5 \<and> t_pc (tasks w' ! 0) = Finished"
    using w(1) r s c w'(4) by blast
  with ok d parts sq jq nl blank sb(1) ends [THEN conjunct1] ends [THEN conjunct2] pq fx
  show ?thesis by (intro conjI) assumption+
qed

section \<open>The debounce timing\<close>












section \<open>Activity that does not qualify\<close>

lemma poll_outcome:
  assumes tid: "tid < length (tasks w)"
    and pc: "t_pc (tasks w ! tid) = AtSleep deadline"
    and d: "0 \<le> d" "deadline = clock w + d"
  shows "\<exists>w'. run cfg [Elapse d, Resume tid Proceed] w = Some w'
           \<and> t_pc (tasks w' ! tid) =
               (if deadline - last_message_time w (event_session_id (t_event (tasks w ! tid))) < 3
                then AtSleep (deadline + 5) else AtQuery)"
proof -
  define w2 where "w2 = w\<lparr>clock := clock w + d\<rparr>"
  define p where "p = (if deadline - last_message_time w (event_session_id (t_event (tasks w ! tid))) < 3
                then AtSleep (deadline + 5) else AtQuery)"
  have w2: "tasks w2 = tasks w" "last_message_time w2 = last_message_time w"
    "clock w2 = deadline"
    using d by (simp_all add: w2_def)
  have s3: "step cfg (Resume tid Proceed) w2 = Some (set_pc tid p w2)"
    using w2 tid pc by (auto simp: p_def)
  have "run cfg [Elapse d, Resume tid Proceed] w = Some (set_pc tid p w2)"
    using s3 d(1) by (simp add: w2_def del: step.simps(4))
  moreover have "t_pc (tasks (set_pc tid p w2) ! tid) = p"
    using w2 tid by simp
  ultimately show ?thesis unfolding p_def by blast
qed

lemma postponed:
  assumes a: "check_access cfg ev" "ingested cfg ev w"
    and tid: "tid < length (tasks w)"
    and pc: "t_pc (tasks w ! tid) = AtSleep deadline"
    and same: "event_session_id (t_event (tasks w ! tid)) = event_session_id ev"
    and d: "0 \<le> d" "deadline = clock w + d"
  shows "\<exists>w'. run cfg [Msg ev, Elapse d, Resume tid Proceed] w = Some w'
           \<and> t_pc (tasks w' ! tid) = (if d < 3 then AtSleep (deadline + 5) else AtQuery)"
proof -
  define w1 where "w1 = handle_all_message cfg ev w"
  define w2 where "w2 = w1\<lparr>clock := clock w1 + d\<rparr>"
  define p where "p = (if d < 3 then AtSleep (deadline + 5) else AtQuery)"
  have t1: "tasks w1 ! tid = tasks w ! tid" "tid < length (tasks w1)"
    using tid by (simp_all add: w1_def ham_tasks nth_append)
  have l1: "last_message_time w1 (event_session_id ev) = clock w" "clock w1 = clock w"
    using a by (simp_all add: w1_def ham_lmt)
  have w2: "tasks w2 ! tid = tasks w ! tid" "tid < length (tasks w2)"
    "last_message_time w2 (event_session_id ev) = clock w" "clock w2 = clock w + d"
    using t1 l1 by (simp_all add: w2_def)
  have s3: "step cfg (Resume tid Proceed) w2 = Some (set_pc tid p w2)"
    using w2 pc same d by (auto simp: p_def)
  have "run cfg [Msg ev, Elapse d, Resume tid Proceed] w = Some (set_pc tid p w2)"
    using s3 d(1) by (simp add: w1_def w2_def del: step.simps(4))
  moreover have "t_pc (tasks (set_pc tid p w2) ! tid) = p"
    using w2 by simp
  ultimately show ?thesis unfolding p_def by blast
qed

text \<open>
  C10. \<^verbatim>\<open>handle_all_message\<close> calls \<^verbatim>\<open>update_time\<close> before it looks for a mention. So
  every admitted message that is ingested sets the last-activity time of its conversation
  to the current time, whether it mentions the bot or not, and one that does not mention
  the bot starts no task. What such a message does to a task sleeping in the polling loop
  for the same conversation depends on when it arrives: with the sleep ending \<open>d\<close> seconds
  after the message, the task sleeps for another 5 seconds when \<open>d < 3\<close>, and goes on to
  the query at that deadline when \<open>3 \<le> d\<close>. Without the message the task goes on to the
  query at the deadline exactly when the last activity is 3 seconds old or older by then:
  the message postpones the firing exactly when it arrives less than 3 seconds before the
  deadline of a sleep that would have been the last.
\<close>

theorem admitted_message_updates_activity:
  assumes "check_access cfg ev" and "ingested cfg ev w"
  shows "last_message_time (handle_all_message cfg ev w) (event_session_id ev) = clock w
       \<and> (\<not> check_mention cfg ev \<longrightarrow> tasks (handle_all_message cfg ev w) = tasks w)
       \<and> (tid < length (tasks w) \<and> t_pc (tasks w ! tid) = AtSleep deadline
            \<and> event_session_id (t_event (tasks w ! tid)) = event_session_id ev
            \<and> 0 \<le> d \<and> deadline = clock w + d \<longrightarrow>
            (\<exists>w'. run cfg [Msg ev, Elapse d, Resume tid Proceed] w = Some w'
               \<and> t_pc (tasks w' ! tid) =
                   (if d < 3 then AtSleep (deadline + 5) else AtQuery))
          \<and> (\<exists>w'. run cfg [Elapse d, Resume tid Proceed] w = Some w'
               \<and> t_pc (tasks w' ! tid) =
                   (if deadline - last_message_time w (event_session_id ev) < 3
                    then AtSleep (deadline + 5) else AtQuery)))"
proof (intro conjI impI)
  show "last_message_time (handle_all_message cfg ev w) (event_session_id ev) = clock w"
    using assms by (simp add: ham_lmt)
next
  assume "\<not> check_mention cfg ev"
  then show "tasks (handle_all_message cfg ev w) = tasks w" by (simp add: ham_tasks)
next
  assume "tid < length (tasks w) \<and> t_pc (tasks w ! tid) = AtSleep deadline
            \<and> event_session_id (t_event (tasks w ! tid)) = event_session_id ev
            \<and> 0 \<le> d \<and> deadline = clock w + d"
  then show "\<exists>w'. run cfg [Msg ev, Elapse d, Resume tid Proceed] w = Some w'
               \<and> t_pc (tasks w' ! tid) = (if d < 3 then AtSleep (deadline + 5) else AtQuery)"
    using postponed [OF assms, of tid deadline d] by blast
next
  assume a: "tid < length (tasks w) \<and> t_pc (tasks w ! tid) = AtSleep deadline
            \<and> event_session_id (t_event (tasks w ! tid)) = event_session_id ev
            \<and> 0 \<le> d \<and> deadline = clock w + d"
  then have e: "event_session_id (t_event (tasks w ! tid)) = event_session_id ev" by blast
  from a show "\<exists>w'. run cfg [Elapse d, Resume tid Proceed] w = Some w'
               \<and> t_pc (tasks w' ! tid) =
                   (if deadline - last_message_time w (event_session_id ev) < 3
                    then AtSleep (deadline + 5) else AtQuery)"
    using poll_outcome [of tid w deadline d cfg] unfolding e by blast
qed

theorem admitted_message_updates_activity_witness:
  "\<exists>w w' u u' u''.
      run demo_config [Msg mention_event, Resume 0 Proceed, Elapse 4] (init_world 0 Map.empty)
        = Some w
    \<and> check_access demo_config chatter_event \<and> \<not> check_mention demo_config chatter_event
    \<and> ingested demo_config chatter_event w
    \<and> last_message_time (handle_all_message demo_config chatter_event w) 7 = 4
    \<and> tasks (handle_all_message demo_config chatter_event w) = tasks w
    \<and> run demo_config [Msg chatter_event, Elapse 1, Resume 0 Proceed] w = Some w'
    \<and> t_pc (tasks w' ! 0) = AtSleep 10
    \<and> run demo_config [Msg mention_event, Resume 0 Proceed, Elapse 2] (init_world 0 Map.empty)
        = Some u
    \<and> ingested demo_config chatter_event u
    \<and> last_message_time (handle_all_message demo_config chatter_event u) 7 = 2
    \<and> run demo_config [Msg chatter_event, Elapse 3, Resume 0 Proceed] u = Some u'
    \<and> t_pc (tasks u' ! 0) = AtQuery
    \<and> run demo_config [Elapse 3, Resume 0 Proceed] u = Some u''
    \<and> t_pc (tasks u'' ! 0) = AtQuery"
proof -
  have "\<exists>w. run demo_config [Msg mention_event, Resume 0 Proceed, Elapse 4]
          (init_world 0 Map.empty) = Some w
        \<and> length (tasks w) = 1 \<and> t_pc (tasks w ! 0) = AtSleep 5 \<and> clock w = 4
        \<and> event_session_id (t_event (tasks w ! 0)) = 7
        \<and> ingested demo_config chatter_event w"
    unfolding mention_event_def chatter_event_def
    by (simp add: ex_simps sched_simps ingested_def)
  then obtain w where w: "run demo_config [Msg mention_event, Resume 0 Proceed, Elapse 4]
          (init_world 0 Map.empty) = Some w"
    "length (tasks w) = 1" "t_pc (tasks w ! 0) = AtSleep 5" "clock w = 4"
    "event_session_id (t_event (tasks w ! 0)) = 7" "ingested demo_config chatter_event w"
    by blast
  have "\<exists>u. run demo_config [Msg mention_event, Resume 0 Proceed, Elapse 2]
          (init_world 0 Map.empty) = Some u
        \<and> length (tasks u) = 1 \<and> t_pc (tasks u ! 0) = AtSleep 5 \<and> clock u = 2
        \<and> event_session_id (t_event (tasks u ! 0)) = 7
        \<and> ingested demo_config chatter_event u
        \<and> last_message_time u 7 = 0"
    unfolding mention_event_def chatter_event_def
    by (simp add: ex_simps sched_simps ingested_def)
  then obtain u where u: "run demo_config [Msg mention_event, Resume 0 Proceed, Elapse 2]
          (init_world 0 Map.empty) = Some u"
    "length (tasks u) = 1" "t_pc (tasks u ! 0) = AtSleep 5" "clock u = 2"
    "event_session_id (t_event (tasks u ! 0)) = 7" "ingested demo_config chatter_event u"
    "last_message_time u 7 = 0"
    by blast
  have m: "check_access demo_config chatter_event" "\<not> check_mention demo_config chatter_event"
    "event_session_id chatter_event = 7"
    unfolding chatter_event_def by (simp_all add: ex_simps)
  note T = admitted_message_updates_activity [OF m(1) w(6), of 0 5 1]
  note U = admitted_message_updates_activity [OF m(1) u(6), of 0 5 3]
  from T m(3) w(4) have l: "last_message_time (handle_all_message demo_config chatter_event w) 7 = 4"
    by simp
  from U m(3) u(4) have lu: "last_message_time (handle_all_message demo_config chatter_event u) 7 = 2"
    by simp
  from T m(2) have t: "tasks (handle_all_message demo_config chatter_event w) = tasks w"
    by blast
  have pw: "0 < length (tasks w) \<and> t_pc (tasks w ! 0) = AtSleep 5
            \<and> event_session_id (t_event (tasks w ! 0)) = event_session_id chatter_event
            \<and> (0::real) \<le> 1 \<and> 5 = clock w + 1"
    using w m(3) by simp
  from T [THEN conjunct2, THEN conjunct2, THEN mp, OF pw, THEN conjunct1] obtain w' where
    "run demo_config [Msg chatter_event, Elapse 1, Resume 0 Proceed] w = Some w'"
    "t_pc (tasks w' ! 0) = (if (1::real) < 3 then AtSleep (5 + 5) else AtQuery)"
    by blast
  then have w': "run demo_config [Msg chatter_event, Elapse 1, Resume 0 Proceed] w = Some w'"
    "t_pc (tasks w' ! 0) = AtSleep 10"
    by simp_all
  have pu: "0 < length (tasks u) \<and> t_pc (tasks u ! 0) = AtSleep 5
            \<and> event_session_id (t_event (tasks u ! 0)) = event_session_id chatter_event
            \<and> (0::real) \<le> 3 \<and> 5 = clock u + 3"
    using u m(3) by simp
  from U [THEN conjunct2, THEN conjunct2, THEN mp, OF pu, THEN conjunct1] obtain u' where
    "run demo_config [Msg chatter_event, Elapse 3, Resume 0 Proceed] u = Some u'"
    "t_pc (tasks u' ! 0) = (if (3::real) < 3 then AtSleep (5 + 5) else AtQuery)"
    by blast
  then have u': "run demo_config [Msg chatter_event, Elapse 3, Resume 0 Proceed] u = Some u'"
    "t_pc (tasks u' ! 0) = AtQuery"
    by simp_all
  from U [THEN conjunct2, THEN conjunct2, THEN mp, OF pu, THEN conjunct2] obtain u'' where
    "run demo_config [Elapse 3, Resume 0 Proceed] u = Some u''"
    "t_pc (tasks u'' ! 0) =
       (if 5 - last_message_time u (event_session_id chatter_event) < 3
        then AtSleep (5 + 5) else AtQuery)"
    by blast
  then have u'': "run demo_config [Elapse 3, Resume 0 Proceed] u = Some u''"
    "t_pc (tasks u'' ! 0) = AtQuery"
    using m(3) u(7) by simp_all
  from w(1) m(1,2) w(6) l t w' u(1) u(6) lu u' u'' show ?thesis by blast
qed

text \<open>
  An admitted message that is not ingested leaves the last-activity time alone: the
  construction of a \<^verbatim>\<open>SimpleMessage\<close> from an image segment without \<^verbatim>\<open>"url"\<close> raises
  \<^verbatim>\<open>KeyError\<close>, and the \<^verbatim>\<open>except\<close> clause of the handler ends the call before
  \<^verbatim>\<open>update_time\<close>. And an ingested message need not postpone the firing: after a mention
  at time 0, the task fires at time 5 whether or not a message without a mention arrives
  at time 2.
\<close>

theorem rejected_message_counterexample:
  "check_access demo_config image_without_url
   \<and> clock (init_world 4 Map.empty) = 4
   \<and> last_message_time (handle_all_message demo_config image_without_url (init_world 4 Map.empty))
        (event_session_id image_without_url) = 0
   \<and> last_message_time (handle_all_message demo_config image_without_url (init_world 4 Map.empty))
        (event_session_id image_without_url) \<noteq> clock (init_world 4 Map.empty)
   \<and> check_access demo_config chatter_event \<and> \<not> check_mention demo_config chatter_event
   \<and> (\<exists>u. run demo_config [Msg mention_event, Resume 0 Proceed, Elapse 2]
              (init_world 0 Map.empty) = Some u
          \<and> is_pending 7 u \<and> t_pc (tasks u ! 0) = AtSleep 5
          \<and> ingested demo_config chatter_event u)
   \<and> (\<exists>v. run demo_config
              [Msg mention_event, Resume 0 Proceed, Elapse 2, Msg chatter_event, Elapse 3,
               Resume 0 Proceed] (init_world 0 Map.empty) = Some v
          \<and> clock v = 5 \<and> t_pc (tasks v ! 0) = AtQuery)
   \<and> (\<exists>v. run demo_config
              [Msg mention_event, Resume 0 Proceed, Elapse 2, Elapse 3,
               Resume 0 Proceed] (init_world 0 Map.empty) = Some v
          \<and> clock v = 5 \<and> t_pc (tasks v ! 0) = AtQuery)"
proof -
  have a: "check_access demo_config image_without_url"
    by (simp add: check_access_def image_without_url_def demo_config_def group_event_def
          startswith_any_def strip_def py_def isspace_def)
  have "SimpleMessage_init image_without_url (ev_time image_without_url) = Inl KeyError"
    by (simp add: SimpleMessage_init_def image_without_url_def group_event_def
          repeats_mface_def image_content_def)
  then have "\<not> ingested demo_config image_without_url (init_world 4 Map.empty)"
    by (simp add: ingested_def add_message_def split: sum.splits prod.splits)
  then have "last_message_time (handle_all_message demo_config image_without_url
                (init_world 4 Map.empty)) = last_message_time (init_world 4 Map.empty)"
    by (simp add: ham_lmt)
  with a have first: "check_access demo_config image_without_url
   \<and> clock (init_world 4 Map.empty) = 4
   \<and> last_message_time (handle_all_message demo_config image_without_url (init_world 4 Map.empty))
        (event_session_id image_without_url) = 0
   \<and> last_message_time (handle_all_message demo_config image_without_url (init_world 4 Map.empty))
        (event_session_id image_without_url) \<noteq> clock (init_world 4 Map.empty)"
    by (simp add: init_world_def)
  have m: "check_access demo_config chatter_event" "\<not> check_mention demo_config chatter_event"
    unfolding chatter_event_def by (simp_all add: ex_simps)
  have u: "\<exists>u. run demo_config [Msg mention_event, Resume 0 Proceed, Elapse 2]
              (init_world 0 Map.empty) = Some u
          \<and> is_pending 7 u \<and> t_pc (tasks u ! 0) = AtSleep 5
          \<and> ingested demo_config chatter_event u"
    unfolding mention_event_def chatter_event_def
    by (simp add: ex_simps sched_simps ingested_def)
  have v1: "\<exists>v. run demo_config
              [Msg mention_event, Resume 0 Proceed, Elapse 2, Msg chatter_event, Elapse 3,
               Resume 0 Proceed] (init_world 0 Map.empty) = Some v
          \<and> clock v = 5 \<and> t_pc (tasks v ! 0) = AtQuery"
    unfolding mention_event_def chatter_event_def
    by (simp add: ex_simps sched_simps)
  have v2: "\<exists>v. run demo_config
              [Msg mention_event, Resume 0 Proceed, Elapse 2, Elapse 3,
               Resume 0 Proceed] (init_world 0 Map.empty) = Some v
          \<and> clock v = 5 \<and> t_pc (tasks v ! 0) = AtQuery"
    unfolding mention_event_def
    by (simp add: ex_simps sched_simps)
  from first m u v1 v2 show ?thesis by (intro conjI) blast+
qed

section \<open>Recording the reply\<close>

text \<open>
  After the last send the task builds one message from the parts, one \<open>Text\<close> for each in
  their order, and hands it to \<^verbatim>\<open>add_self_message\<close>, which appends it with
  \<^verbatim>\<open>add_message\<close> when the conversation is registered.
\<close>

lemma bot_message_fields:
  "from_dict (bot_message_dict cfg ev wall msgs) =
     Inr \<lparr>user_name = character_name cfg, user_id = StrId (py_str (ev_self_id ev)),
          time = wall, message = map Text msgs\<rparr>"
  by (simp add: from_dict_def bot_message_dict_def)

lemma reply_recorded:
  assumes "tid < length (tasks w)" "t_pc (tasks w ! tid) = AtSend msgs msg []"
  shows "\<exists>w'. step cfg (Resume tid (SendOk wall)) w = Some w'
           \<and> sessions w' =
               add_self_message (sessions w) (event_session_id (t_event (tasks w ! tid)))
                 \<lparr>user_name = character_name cfg,
                  user_id = StrId (py_str (ev_self_id (t_event (tasks w ! tid)))),
                  time = wall, message = map Text msgs\<rparr>"
  using assms by (simp add: bot_message_fields)

lemma py_str_99: "py_str 99 = py ''99''"
  by (simp add: py_str_def py_def str_nat.simps)

text \<open>
  C8. The recorded reply should carry the bot's own id, an integer, as its
  \<^verbatim>\<open>user_id\<close>. The code passes \<^verbatim>\<open>str(event.self_id)\<close>, and \<^verbatim>\<open>from_dict\<close> copies it: for
  the bot 99 the entry's \<^verbatim>\<open>user_id\<close> is the string \<^verbatim>\<open>"99"\<close>, which differs from the integer
  99. The merge rule sees the difference: the reply is not merged into a just-recorded
  entry whose \<^verbatim>\<open>user_id\<close> is the integer 99, as a message with the integer id would be.
  The rest holds in the run below: one entry is appended after both parts are sent, with
  the parts as its content in the order of delivery.
\<close>

theorem reply_sender_is_a_string:
  "(\<exists>w. run demo_config
          [Msg mention_event, Resume 0 Proceed, Elapse 5, Resume 0 Proceed,
           Resume 0 (QueryResult (Returned (Some (py ''ok\<newline>bye'')))),
           Resume 0 (SendOk 1700000009), Elapse 0.75, Resume 0 Proceed,
           Resume 0 (SendOk 1700000010)]
          (init_world 0 Map.empty) = Some w
        \<and> map_option messages (sessions w 7) =
            Some [\<lparr>user_name = py ''Ann'', user_id = IntId 1, time = 1700000000,
                    message = [Text (py ''hi'')]\<rparr>,
                  \<lparr>user_name = py ''Kira'', user_id = StrId (py ''99''), time = 1700000010,
                    message = [Text (py ''ok''), Text (py ''bye'')]\<rparr>])
   \<and> ev_self_id mention_event = 99
   \<and> StrId (py ''99'') \<noteq> IntId 99
   \<and> \<not> fst (try_merge_message (small_session [said 99 1700000005 (py ''x'')])
              \<lparr>user_name = py ''Kira'', user_id = StrId (py ''99''), time = 1700000010,
               message = [Text (py ''ok'')]\<rparr>)
   \<and> fst (try_merge_message (small_session [said 99 1700000005 (py ''x'')])
              \<lparr>user_name = py ''Kira'', user_id = IntId 99, time = 1700000010,
               message = [Text (py ''ok'')]\<rparr>)"
proof -
  have parts: "handle_llm_query (Returned (Some (py ''ok\<newline>bye''))) = [py ''ok'', py ''bye'']"
    by (simp add: handle_llm_query_def split_on_def strip_def isspace_def py_def)
  have d: "delay (py ''bye'') = 0.75"
    by (simp add: delay_def py_def)
  have "\<exists>w. run demo_config
          [Msg mention_event, Resume 0 Proceed, Elapse 5, Resume 0 Proceed,
           Resume 0 (QueryResult (Returned (Some (py ''ok\<newline>bye'')))),
           Resume 0 (SendOk 1700000009), Elapse 0.75, Resume 0 Proceed,
           Resume 0 (SendOk 1700000010)]
          (init_world 0 Map.empty) = Some w
        \<and> map_option messages (sessions w 7) =
            Some [\<lparr>user_name = py ''Ann'', user_id = IntId 1, time = 1700000000,
                    message = [Text (py ''hi'')]\<rparr>,
                  \<lparr>user_name = py ''Kira'', user_id = StrId (py ''99''), time = 1700000010,
                    message = [Text (py ''ok''), Text (py ''bye'')]\<rparr>]"
    unfolding mention_event_def
    by (simp add: ex_simps sched_simps parts d bot_message_fields py_str_99
          add_self_message_def after_call_def)
       (simp add: demo_config_def)
  moreover have "ev_self_id mention_event = 99"
    by (simp add: mention_event_def group_event_def)
  moreover have "\<not> fst (try_merge_message (small_session [said 99 1700000005 (py ''x'')])
              \<lparr>user_name = py ''Kira'', user_id = StrId (py ''99''), time = 1700000010,
               message = [Text (py ''ok'')]\<rparr>)"
    by (simp add: try_merge_fst small_session_def said_def)
  moreover have "fst (try_merge_message (small_session [said 99 1700000005 (py ''x'')])
              \<lparr>user_name = py ''Kira'', user_id = IntId 99, time = 1700000010,
               message = [Text (py ''ok'')]\<rparr>)"
    by (simp add: try_merge_fst small_session_def said_def)
  ultimately show ?thesis by simp
qed

end
